theory Spec2Isabelle
  imports Main
begin

section \<open>Python strings and the four regular expressions of the checker\<close>

text \<open>
  A Python \<open>str\<close> is modelled as a \<open>string\<close>; a \<open>char\<close> stands for the code point of the
  same number, so the model covers texts whose code points are below 256. Line numbers and
  counters are natural numbers.
\<close>

abbreviation sq :: char where "sq \<equiv> CHR 0x27"
abbreviation dq :: char where "dq \<equiv> CHR 0x22"
abbreviation nl :: char where "nl \<equiv> CHR 0x0A"

text \<open>The characters removed by \<open>str.strip()\<close>: those for which \<open>str.isspace\<close> holds.\<close>

definition is_space :: "char \<Rightarrow> bool" where
  "is_space c = ((of_char c :: nat) \<in> set [9, 10, 11, 12, 13, 28, 29, 30, 31, 32, 133, 160])"

definition py_strip :: "string \<Rightarrow> string" where
  "py_strip s = rev (dropWhile is_space (rev (dropWhile is_space s)))"

text \<open>\<open>s.strip(chars)\<close>\<close>

definition py_strip_chars :: "string \<Rightarrow> string \<Rightarrow> string" where
  "py_strip_chars cs s =
     rev (dropWhile (\<lambda>c. c \<in> set cs) (rev (dropWhile (\<lambda>c. c \<in> set cs) s)))"

text \<open>\<open>s.startswith(p)\<close>\<close>

definition py_startswith :: "string \<Rightarrow> string \<Rightarrow> bool" where
  "py_startswith s p = (take (length p) s = p)"

text \<open>\<open>sub in s\<close>\<close>

fun py_in :: "string \<Rightarrow> string \<Rightarrow> bool" where
  "py_in sub [] = (sub = [])"
| "py_in sub (c # cs) = (py_startswith (c # cs) sub \<or> py_in sub cs)"

text \<open>\<open>s.split(d)\<close> for a one-character separator\<close>

fun py_split :: "char \<Rightarrow> string \<Rightarrow> string list" where
  "py_split d [] = [[]]"
| "py_split d (c # cs) =
     (if c = d then [] # py_split d cs
      else (case py_split d cs of p # ps \<Rightarrow> (c # p) # ps | [] \<Rightarrow> [[c]]))"

text \<open>\<open>sep.join(xs)\<close>\<close>

fun py_join :: "string \<Rightarrow> string list \<Rightarrow> string" where
  "py_join sep [] = []"
| "py_join sep [x] = x"
| "py_join sep (x # y # ys) = x @ sep @ py_join sep (y # ys)"

text \<open>\<open>s.lower()\<close>\<close>

definition py_lower_char :: "char \<Rightarrow> char" where
  "py_lower_char c = (let n = (of_char c :: nat) in
     if (65 \<le> n \<and> n \<le> 90) \<or> (192 \<le> n \<and> n \<le> 214) \<or> (216 \<le> n \<and> n \<le> 222)
     then char_of (n + 32) else c)"

definition py_lower :: "string \<Rightarrow> string" where
  "py_lower s = map py_lower_char s"

text \<open>\<open>str(n)\<close> for a number that is not negative, as the f-strings print it\<close>

definition digit_char :: "nat \<Rightarrow> char" where
  "digit_char d = ''0123456789'' ! d"

fun py_str :: "nat \<Rightarrow> string" where
  "py_str n = (if n < 10 then [digit_char n]
               else py_str (n div 10) @ [digit_char (n mod 10)])"

declare py_str.simps [simp del]

text \<open>\<open>\w\<close> of a Python 3 string pattern: alphanumeric code points and the underscore.\<close>

definition is_word_char :: "char \<Rightarrow> bool" where
  "is_word_char c = (let n = (of_char c :: nat) in
     (48 \<le> n \<and> n \<le> 57) \<or> (65 \<le> n \<and> n \<le> 90) \<or> n = 95 \<or> (97 \<le> n \<and> n \<le> 122) \<or>
     n \<in> set [170, 178, 179, 181, 185, 186, 188, 189, 190] \<or>
     (192 \<le> n \<and> n \<le> 214) \<or> (216 \<le> n \<and> n \<le> 246) \<or> (248 \<le> n \<and> n \<le> 255))"

text \<open>
  A pattern is modelled by its matcher: given the text from the current position on, the
  length of the match that starts there, if there is one. \<open>re_scan\<close> is the scan that
  \<open>findall\<close> and \<open>sub\<close> share: matches are taken from left to right and do not overlap; the
  second argument counts the characters of the current match still to be passed over. None
  of the four patterns matches the empty string.
\<close>

type_synonym pattern = "string \<Rightarrow> nat option"

fun re_scan :: "pattern \<Rightarrow> nat \<Rightarrow> string \<Rightarrow> (string + char) list" where
  "re_scan p k [] = []"
| "re_scan p (Suc k) (c # cs) = re_scan p k cs"
| "re_scan p 0 (c # cs) =
     (case p (c # cs) of
        Some (Suc n) \<Rightarrow> Inl (take (Suc n) (c # cs)) # re_scan p n cs
      | _ \<Rightarrow> Inr c # re_scan p 0 cs)"

definition re_findall :: "pattern \<Rightarrow> string \<Rightarrow> string list" where
  "re_findall p s = concat (map (\<lambda>t. case t of Inl m \<Rightarrow> [m] | Inr c \<Rightarrow> []) (re_scan p 0 s))"

text \<open>\<open>pattern.sub('', s)\<close>\<close>

definition re_sub_empty :: "pattern \<Rightarrow> string \<Rightarrow> string" where
  "re_sub_empty p s = concat (map (\<lambda>t. case t of Inl m \<Rightarrow> [] | Inr c \<Rightarrow> [c]) (re_scan p 0 s))"

text \<open>
  \<open>q[^q]*q\<close> for a quote character \<open>q\<close>: an opening quote, then everything up to the
  next quote.
\<close>

definition quoted_match :: "char \<Rightarrow> pattern" where
  "quoted_match q s =
     (case s of
        [] \<Rightarrow> None
      | c # cs \<Rightarrow>
          if c = q \<and> dropWhile (\<lambda>x. x \<noteq> q) cs \<noteq> []
          then Some (length (takeWhile (\<lambda>x. x \<noteq> q) cs) + 2)
          else None)"

text \<open>\<open>re.compile(r'<"[^"]+">')\<close>\<close>

definition placeholder_pattern :: pattern where
  "placeholder_pattern s =
     (case s of
        a # b # cs \<Rightarrow>
          (let body = takeWhile (\<lambda>x. x \<noteq> dq) cs; rest = dropWhile (\<lambda>x. x \<noteq> dq) cs in
           if a = CHR ''<'' \<and> b = dq \<and> body \<noteq> [] \<and> take 2 rest = [dq, CHR ''>'']
           then Some (length body + 4) else None)
      | _ \<Rightarrow> None)"

text \<open>\<open>re.compile(r'"[^"]*"')\<close>\<close>

definition fixed_value_pattern :: pattern where
  "fixed_value_pattern = quoted_match dq"

text \<open>\<open>re.compile(r"'[^']*'")\<close>\<close>

definition bad_placeholder_pattern :: pattern where
  "bad_placeholder_pattern = quoted_match sq"

text \<open>
  \<open>re.compile(r"\b\w+\b")\<close>. The scan tries a position only at the start of the text, after
  a character that is not a word character, or after a whole run of word characters, so the
  leading \<open>\b\<close> holds exactly when the first character is a word character, and the greedy
  \<open>\w+\<close> ends at a boundary.
\<close>

definition word_pattern :: pattern where
  "word_pattern s = (case takeWhile is_word_char s of [] \<Rightarrow> None | w # ws \<Rightarrow> Some (Suc (length ws)))"

definition gherkin_keywords :: "string list" where
  "gherkin_keywords = [''Feature'', ''Scenario'', ''Given'', ''When'', ''Then'', ''And'', ''But'',
                       ''Background'', ''Examples'', ''Scenario Outline'']"

section \<open>TestReport\<close>

type_synonym issue = "string \<times> string \<times> nat"
type_synonym misspelling = "string \<times> nat \<times> string list"

record stats =
  stat_total_lines :: nat
  stat_scenarios :: nat
  stat_steps :: nat
  stat_total_iterations :: nat

text \<open>\<open>enabled_checks\<close> is a dictionary from check names to flags, kept as its items.\<close>

record test_report =
  issues :: "issue list"
  misspelled_words :: "misspelling list"
  stats :: stats
  timestamp :: string
  filename :: string
  feature_type :: string
  enabled_checks :: "(string \<times> bool) list"

datatype py_error = KeyError string | ValueError string

definition default_enabled_checks :: "(string \<times> bool) list" where
  "default_enabled_checks =
     [(''syntax'', True), (''misspelled'', True), (''placeholder_mismatch'', True),
      (''placeholder_order'', True), (''invalid_placeholder'', True), (''repeated_word'', True),
      (''drive_cycle'', True), (''success_criteria'', True), (''duplicate_scenario'', True)]"

text \<open>
  \<open>TestReport.__init__\<close>; the first argument is what \<open>time.strftime\<close> returns. An absent
  or empty \<open>enabled_checks\<close> is replaced by the default (\<open>enabled_checks or {...}\<close>).
\<close>

definition TestReport_init :: "string \<Rightarrow> (string \<times> bool) list option \<Rightarrow> test_report" where
  "TestReport_init now ec =
     \<lparr>issues = [], misspelled_words = [],
      stats = \<lparr>stat_total_lines = 0, stat_scenarios = 0, stat_steps = 0, stat_total_iterations = 0\<rparr>,
      timestamp = now, filename = [], feature_type = ''standard'',
      enabled_checks = (case ec of None \<Rightarrow> default_enabled_checks
                        | Some [] \<Rightarrow> default_enabled_checks
                        | Some e \<Rightarrow> e)\<rparr>"

definition add_issue :: "test_report \<Rightarrow> string \<Rightarrow> string \<Rightarrow> nat \<Rightarrow> test_report" where
  "add_issue r issue_type description line_num =
     r\<lparr>issues := issues r @ [(issue_type, description, line_num)]\<rparr>"

definition add_misspelled :: "test_report \<Rightarrow> string \<Rightarrow> nat \<Rightarrow> string list \<Rightarrow> test_report" where
  "add_misspelled r word line_num suggestions =
     r\<lparr>misspelled_words := misspelled_words r @ [(word, line_num, suggestions)]\<rparr>"

definition update_stats :: "test_report \<Rightarrow> nat \<Rightarrow> nat \<Rightarrow> nat \<Rightarrow> nat \<Rightarrow> test_report" where
  "update_stats r total_lines scenarios steps total_iterations =
     r\<lparr>stats := \<lparr>stat_total_lines = total_lines, stat_scenarios = scenarios,
                  stat_steps = steps, stat_total_iterations = total_iterations\<rparr>\<rparr>"

definition set_filename :: "test_report \<Rightarrow> string \<Rightarrow> test_report" where
  "set_filename r f = r\<lparr>filename := f\<rparr>"

definition set_feature_type :: "test_report \<Rightarrow> string \<Rightarrow> test_report" where
  "set_feature_type r t = r\<lparr>feature_type := t\<rparr>"

text \<open>\<open>[i for i in self.issues if i[0] == kind]\<close>\<close>

definition issues_of :: "string \<Rightarrow> test_report \<Rightarrow> issue list" where
  "issues_of kind r = filter (\<lambda>i. fst i = kind) (issues r)"

text \<open>\<open>[i for i in self.issues if i[0] == "Syntax Error" and tag in i[1]]\<close>\<close>

definition format_errors :: "string \<Rightarrow> test_report \<Rightarrow> issue list" where
  "format_errors tag r =
     filter (\<lambda>i. fst i = ''Syntax Error'' \<and> py_in tag (fst (snd i))) (issues r)"

text \<open>
  One \<open>if self.enabled_checks[key] ...: total += n\<close> of \<open>get_total_errors\<close>: the lookup
  raises \<open>KeyError\<close> for a missing key; \<open>extra\<close> is the rest of the condition.
\<close>

definition add_category ::
  "test_report \<Rightarrow> string \<Rightarrow> bool \<Rightarrow> nat \<Rightarrow> py_error + nat \<Rightarrow> py_error + nat" where
  "add_category r key extra n acc =
     (case acc of
        Inl e \<Rightarrow> Inl e
      | Inr t \<Rightarrow>
          (case map_of (enabled_checks r) key of
             None \<Rightarrow> Inl (KeyError key)
           | Some b \<Rightarrow> Inr (if b \<and> extra then t + n else t)))"

definition get_total_errors :: "test_report \<Rightarrow> py_error + nat" where
  "get_total_errors r =
     add_category r ''duplicate_scenario'' True (length (issues_of ''Duplicate Scenario'' r))
    (add_category r ''success_criteria'' (feature_type r = ''success_criteria'')
        (length (format_errors ''Success Criteria'' r))
    (add_category r ''drive_cycle'' (feature_type r = ''drive_cycle'')
        (length (format_errors ''Drive Cycle'' r))
    (add_category r ''repeated_word'' True (length (issues_of ''Repeated Word'' r))
    (add_category r ''invalid_placeholder'' True (length (issues_of ''Invalid Placeholder Syntax'' r))
    (add_category r ''placeholder_order'' True (length (issues_of ''Placeholder Order'' r))
    (add_category r ''placeholder_mismatch'' True (length (issues_of ''Placeholder Mismatch'' r))
    (add_category r ''syntax'' True (length (issues_of ''Syntax Error'' r))
    (add_category r ''misspelled'' True (length (misspelled_words r)) (Inr 0)))))))))"

text \<open>\<open>self.enabled_checks[key]\<close> where the key is known to be present\<close>

definition check_enabled :: "test_report \<Rightarrow> string \<Rightarrow> bool" where
  "check_enabled r key = (map_of (enabled_checks r) key = Some True)"

text \<open>One section of the text report: the heading, then a line per issue or "None found".\<close>

definition issue_line :: "issue \<Rightarrow> string" where
  "issue_line i = '' - Line '' @ py_str (snd (snd i)) @ '': '' @ fst (snd i)"

definition text_section :: "string \<Rightarrow> issue list \<Rightarrow> string" where
  "text_section title items =
     title @ '':'' @ [nl] @
     (if items = [] then '' - None found'' @ [nl] else py_join [nl] (map issue_line items)) @
     [nl, nl]"

definition misspelled_line :: "misspelling \<Rightarrow> string" where
  "misspelled_line m =
     (case m of (w, ln, s) \<Rightarrow>
        '' - Line '' @ py_str ln @ '': '' @ [sq] @ w @ [sq] @ '' [Suggestions: '' @
        py_join '', '' s @ '']'')"

definition text_report :: "test_report \<Rightarrow> nat \<Rightarrow> string" where
  "text_report r total_errors =
     ''Gherkin Feature File Analysis Report'' @ [nl] @
     ''Generated: '' @ timestamp r @ [nl] @
     ''Analyzed File: '' @ filename r @ [nl] @
     ''Total Errors Found: '' @ py_str total_errors @ [nl] @ replicate 50 (CHR ''-'') @ [nl, nl] @
     (if check_enabled r ''misspelled''
      then ''Misspelled Words:'' @ [nl] @
           (if misspelled_words r = [] then '' - None found'' @ [nl]
            else py_join [nl] (map misspelled_line (misspelled_words r))) @ [nl, nl]
      else []) @
     (if check_enabled r ''syntax''
      then text_section ''Syntax Errors'' (issues_of ''Syntax Error'' r) else []) @
     (if check_enabled r ''placeholder_mismatch''
      then text_section ''Placeholder Mismatch Check'' (issues_of ''Placeholder Mismatch'' r)
      else []) @
     (if check_enabled r ''placeholder_order''
      then text_section ''Placeholder Order Check'' (issues_of ''Placeholder Order'' r)
      else []) @
     (if check_enabled r ''invalid_placeholder''
      then text_section ''Invalid Placeholder Syntax Check''
             (issues_of ''Invalid Placeholder Syntax'' r)
      else []) @
     (if check_enabled r ''repeated_word''
      then text_section ''Repeated Word Check'' (issues_of ''Repeated Word'' r) else []) @
     (if check_enabled r ''drive_cycle'' \<and> feature_type r = ''drive_cycle''
      then text_section ''Drive Cycle Format Check'' (format_errors ''Drive Cycle'' r)
      else []) @
     (if check_enabled r ''success_criteria'' \<and> feature_type r = ''success_criteria''
      then text_section ''Success Criteria Format Check'' (format_errors ''Success Criteria'' r)
      else []) @
     (if check_enabled r ''duplicate_scenario''
      then text_section ''Duplicate Scenario Check'' (issues_of ''Duplicate Scenario'' r)
      else []) @
     ''File Statistics:'' @ [nl] @
     '' - Total Lines: '' @ py_str (stat_total_lines (stats r)) @ [nl] @
     '' - Scenarios: '' @ py_str (stat_scenarios (stats r)) @ [nl] @
     '' - Steps: '' @ py_str (stat_steps (stats r)) @ [nl] @
     '' - Total Iterations in Examples: '' @ py_str (stat_total_iterations (stats r)) @ [nl]"

text \<open>The dictionary of the JSON format; an entry of a category is (line, description).\<close>

record json_report =
  json_timestamp :: string
  json_filename :: string
  json_total_errors :: nat
  json_misspelled_words :: "misspelling list"
  json_syntax_errors :: "(nat \<times> string) list"
  json_placeholder_mismatches :: "(nat \<times> string) list"
  json_placeholder_orders :: "(nat \<times> string) list"
  json_invalid_placeholders :: "(nat \<times> string) list"
  json_repeated_words :: "(nat \<times> string) list"
  json_drive_cycle_errors :: "(nat \<times> string) list"
  json_success_criteria_errors :: "(nat \<times> string) list"
  json_duplicate_scenarios :: "(nat \<times> string) list"
  json_stats :: stats

definition json_entries :: "bool \<Rightarrow> issue list \<Rightarrow> (nat \<times> string) list" where
  "json_entries enabled items =
     (if enabled then map (\<lambda>i. (snd (snd i), fst (snd i))) items else [])"

definition json_of :: "test_report \<Rightarrow> nat \<Rightarrow> json_report" where
  "json_of r total_errors =
     \<lparr>json_timestamp = timestamp r, json_filename = filename r,
      json_total_errors = total_errors,
      json_misspelled_words = (if check_enabled r ''misspelled'' then misspelled_words r else []),
      json_syntax_errors = json_entries (check_enabled r ''syntax'') (issues_of ''Syntax Error'' r),
      json_placeholder_mismatches =
        json_entries (check_enabled r ''placeholder_mismatch'') (issues_of ''Placeholder Mismatch'' r),
      json_placeholder_orders =
        json_entries (check_enabled r ''placeholder_order'') (issues_of ''Placeholder Order'' r),
      json_invalid_placeholders =
        json_entries (check_enabled r ''invalid_placeholder'')
          (issues_of ''Invalid Placeholder Syntax'' r),
      json_repeated_words =
        json_entries (check_enabled r ''repeated_word'') (issues_of ''Repeated Word'' r),
      json_drive_cycle_errors =
        json_entries (check_enabled r ''drive_cycle'' \<and> feature_type r = ''drive_cycle'')
          (format_errors ''Drive Cycle'' r),
      json_success_criteria_errors =
        json_entries (check_enabled r ''success_criteria'' \<and> feature_type r = ''success_criteria'')
          (format_errors ''Success Criteria'' r),
      json_duplicate_scenarios =
        json_entries (check_enabled r ''duplicate_scenario'') (issues_of ''Duplicate Scenario'' r),
      json_stats = stats r\<rparr>"

datatype report_output = TextReport string | JsonReport json_report

text \<open>
  \<open>generate_report\<close> returns its result, or the exception it raises, together with the
  report as the call leaves it. Both formats compute \<open>get_total_errors\<close> first, which
  looks up all nine check names, so the later lookups find their keys.
\<close>

definition generate_report ::
  "test_report \<Rightarrow> string \<Rightarrow> (py_error + report_output) \<times> test_report" where
  "generate_report r format =
     (if format = ''text'' then
        (case get_total_errors r of
           Inl e \<Rightarrow> (Inl e, r)
         | Inr n \<Rightarrow> (Inr (TextReport (text_report r n)), r))
      else if format = ''json'' then
        (case get_total_errors r of
           Inl e \<Rightarrow> (Inl e, r)
         | Inr n \<Rightarrow> (Inr (JsonReport (json_of r n)), r))
      else (Inl (ValueError (''Unsupported report format: '' @ format)), r))"

section \<open>GherkinChecker\<close>

text \<open>The injected spellchecker object: its \<open>check\<close> and \<open>suggest\<close> methods.\<close>

record spellchecker =
  sp_check :: "string \<Rightarrow> bool"
  sp_suggest :: "string \<Rightarrow> string list"

text \<open>
  The attributes of a \<open>GherkinChecker\<close>. The spell cache is a dictionary from lower-case
  words to suggestion lists. The lock is left out: one scan is sequential. The compiled
  patterns are the matchers above.
\<close>

record gherkin_checker =
  ck_spellchecker :: "spellchecker option"
  ck_spell_cache :: "string \<rightharpoonup> string list"
  ck_custom_words :: "string set"
  ck_feature_type :: string
  ck_spellcheck_enabled :: bool

text \<open>
  \<open>GherkinChecker.__init__\<close>. The first argument is what the environment offers when no
  spellchecker is passed: \<open>enchant.Dict(language)\<close> if the module is there, else nothing.
  An absent cache or word set is the empty one.
\<close>

definition GherkinChecker_init ::
  "spellchecker option \<Rightarrow> spellchecker option \<Rightarrow> (string \<rightharpoonup> string list) \<Rightarrow> string set \<Rightarrow>
   string \<Rightarrow> bool \<Rightarrow> gherkin_checker" where
  "GherkinChecker_init enchant_dict sp cache custom_words ftype spellcheck_enabled =
     \<lparr>ck_spellchecker = (case sp of Some d \<Rightarrow> Some d | None \<Rightarrow> enchant_dict),
      ck_spell_cache = cache, ck_custom_words = custom_words,
      ck_feature_type = ftype, ck_spellcheck_enabled = spellcheck_enabled\<rparr>"

text \<open>The local variables of \<open>process_file\<close>, the report it fills and the shared cache.\<close>

record scan_state =
  scenarios :: nat
  steps :: nat
  total_iterations :: nat
  scenario_dict :: "string \<rightharpoonup> nat"
  current_scenario :: "string option"
  current_steps :: "string list"
  in_examples :: bool
  examples_headers :: "string list option"
  scenario_start_line :: nat
  has_feature :: bool
  given_count :: nat
  when_count :: nat
  then_count :: nat
  and_count :: nat
  report :: test_report
  spell_cache :: "string \<rightharpoonup> string list"

definition init_state :: "gherkin_checker \<Rightarrow> test_report \<Rightarrow> scan_state" where
  "init_state ck r =
     \<lparr>scenarios = 0, steps = 0, total_iterations = 0, scenario_dict = Map.empty,
      current_scenario = None, current_steps = [], in_examples = False,
      examples_headers = None, scenario_start_line = 0, has_feature = False,
      given_count = 0, when_count = 0, then_count = 0, and_count = 0,
      report = r, spell_cache = ck_spell_cache ck\<rparr>"

text \<open>\<open>if current_scenario\<close>: neither \<open>None\<close> nor the empty string\<close>

definition truthy :: "string option \<Rightarrow> bool" where
  "truthy x = (case x of None \<Rightarrow> False | Some s \<Rightarrow> s \<noteq> [])"

text \<open>\<open>report.add_issue(...)\<close> inside the scan\<close>

definition emit :: "string \<Rightarrow> string \<Rightarrow> nat \<Rightarrow> scan_state \<Rightarrow> scan_state" where
  "emit issue_type description line_num st =
     st\<lparr>report := add_issue (report st) issue_type description line_num\<rparr>"

definition py_endswith :: "string \<Rightarrow> string \<Rightarrow> bool" where
  "py_endswith s p = (length p \<le> length s \<and> drop (length s - length p) s = p)"

text \<open>The two checks of the Success Criteria format on the counts of the open scenario.\<close>

definition success_criteria_check :: "scan_state \<Rightarrow> scan_state" where
  "success_criteria_check st =
     (let st1 = (if given_count st \<noteq> 1
                 then emit ''Syntax Error''
                        (''Success Criteria must have exactly 1 Given, found '' @ py_str (given_count st))
                        (scenario_start_line st) st
                 else st)
      in if when_count st1 \<noteq> 1
         then emit ''Syntax Error''
                (''Success Criteria must have exactly 1 When, found '' @ py_str (when_count st1))
                (scenario_start_line st1) st1
         else st1)"

text \<open>The branch of a line that starts with \<open>Scenario\<close>.\<close>

definition on_scenario :: "gherkin_checker \<Rightarrow> nat \<Rightarrow> string \<Rightarrow> scan_state \<Rightarrow> scan_state" where
  "on_scenario ck i line st =
     (let st1 = (if truthy (current_scenario st) \<and> ck_feature_type ck = ''success_criteria''
                 then success_criteria_check st else st);
          st2 = (if \<not> has_feature st1
                 then emit ''Syntax Error'' ''Scenario found before Feature'' i st1 else st1);
          st3 = st2\<lparr>scenarios := scenarios st2 + 1\<rparr>;
          st4 = (case scenario_dict st3 line of
                   Some first_line \<Rightarrow>
                     emit ''Duplicate Scenario''
                       (''Scenario identical to one at line '' @ py_str first_line) i st3
                 | None \<Rightarrow> st3\<lparr>scenario_dict := (scenario_dict st3)(line \<mapsto> i)\<rparr>)
      in st4\<lparr>current_scenario := Some line, current_steps := [], scenario_start_line := i,
             given_count := 0, when_count := 0, then_count := 0, and_count := 0,
             in_examples := False, examples_headers := None\<rparr>)"

text \<open>The branch of a line that starts with \<open>Examples\<close>.\<close>

definition on_examples :: "nat \<Rightarrow> scan_state \<Rightarrow> scan_state" where
  "on_examples i st =
     (let st1 = (if \<not> truthy (current_scenario st)
                 then emit ''Syntax Error'' ''Examples found outside a Scenario'' i st else st)
      in st1\<lparr>in_examples := True\<rparr>)"

text \<open>\<open>ph.strip('<>').strip('"')\<close>\<close>

definition placeholder_name :: "string \<Rightarrow> string" where
  "placeholder_name ph = py_strip_chars [dq] (py_strip_chars ''<>'' ph)"

text \<open>\<open>next((idx for idx, x in enumerate(xs) if P x), -1)\<close>, with \<open>None\<close> for \<open>-1\<close>\<close>

fun first_index :: "('a \<Rightarrow> bool) \<Rightarrow> 'a list \<Rightarrow> nat option" where
  "first_index P [] = None"
| "first_index P (x # xs) = (if P x then Some 0 else map_option Suc (first_index P xs))"

text \<open>The line a placeholder issue is reported at.\<close>

definition placeholder_line :: "scan_state \<Rightarrow> nat \<Rightarrow> string \<Rightarrow> nat" where
  "placeholder_line st i ph =
     (case first_index (py_in ph) (current_steps st) of
        Some step_index \<Rightarrow> step_index + scenario_start_line st
      | None \<Rightarrow> i)"

definition mismatch_description :: "string \<Rightarrow> string" where
  "mismatch_description ph =
     ''Placeholder '' @ [sq] @ ph @ [sq] @
     '' does not match any column heading in the Examples table (case-sensitive)''"

definition order_description :: "string \<Rightarrow> string" where
  "order_description ph =
     ''Placeholder '' @ [sq] @ ph @ [sq] @
     '' used out of sequence relative to Examples table column headings''"

text \<open>
  \<open>for ph in set(placeholders_used)\<close>: Python leaves the order in which a set is walked
  open; the model walks the distinct tokens in one fixed order (that of \<open>remdups\<close>). No
  property below depends on the order of the Placeholder Mismatch issues among themselves.
\<close>

definition mismatch_loop ::
  "string list \<Rightarrow> (string \<Rightarrow> nat) \<Rightarrow> string list \<Rightarrow> test_report \<Rightarrow> test_report" where
  "mismatch_loop hdrs line_of used r =
     foldl (\<lambda>r ph. if placeholder_name ph \<notin> set hdrs
                    then add_issue r ''Placeholder Mismatch'' (mismatch_description ph) (line_of ph)
                    else r)
       r (remdups used)"

text \<open>\<open>{h: idx for idx, h in enumerate(examples_headers)}\<close>: a later column wins.\<close>

definition header_order :: "string list \<Rightarrow> (string \<rightharpoonup> nat)" where
  "header_order hdrs = foldl (\<lambda>m (idx, h). m(h \<mapsto> idx)) Map.empty (zip [0..<length hdrs] hdrs)"

text \<open>
  The ordering loop; \<open>header_order.get(name, -1)\<close> is the lookup, with \<open>None\<close> for \<open>-1\<close>.
\<close>

fun order_loop ::
  "(string \<rightharpoonup> nat) \<Rightarrow> (string \<Rightarrow> nat) \<Rightarrow> string list \<Rightarrow> int \<Rightarrow> test_report \<Rightarrow> test_report" where
  "order_loop ho line_of [] last_pos r = r"
| "order_loop ho line_of (ph # phs) last_pos r =
     (case ho (placeholder_name ph) of
        None \<Rightarrow> order_loop ho line_of phs last_pos r
      | Some current_pos \<Rightarrow>
          order_loop ho line_of phs (max last_pos (int current_pos))
            (if int current_pos < last_pos
             then add_issue r ''Placeholder Order'' (order_description ph) (line_of ph)
             else r))"

text \<open>The first table row of an Examples block: the headers and the two placeholder checks.\<close>

definition capture_headers :: "nat \<Rightarrow> string \<Rightarrow> scan_state \<Rightarrow> scan_state" where
  "capture_headers i line st =
     (let hdrs = map py_strip (butlast (tl (py_split (CHR ''|'') line)));
          placeholders_used = concat (map (re_findall placeholder_pattern) (current_steps st));
          r1 = mismatch_loop hdrs (placeholder_line st i) placeholders_used (report st);
          r2 = (if placeholders_used \<noteq> []
                then order_loop (header_order hdrs) (placeholder_line st i) placeholders_used (- 1) r1
                else r1)
      in st\<lparr>examples_headers := Some hdrs, report := r2\<rparr>)"

text \<open>\<open>if not examples_headers\<close>: \<open>None\<close> or an empty list\<close>

definition no_headers :: "scan_state \<Rightarrow> bool" where
  "no_headers st = (case examples_headers st of None \<Rightarrow> True | Some hdrs \<Rightarrow> hdrs = [])"

definition on_table_row :: "nat \<Rightarrow> string \<Rightarrow> scan_state \<Rightarrow> scan_state" where
  "on_table_row i line st =
     (if no_headers st then capture_headers i line st
      else st\<lparr>total_iterations := total_iterations st + 1\<rparr>)"

text \<open>The branch of a step line.\<close>

definition on_step :: "gherkin_checker \<Rightarrow> nat \<Rightarrow> string \<Rightarrow> scan_state \<Rightarrow> scan_state" where
  "on_step ck i line st =
     (let st1 = (if \<not> truthy (current_scenario st)
                 then emit ''Syntax Error'' ''Step found outside a Scenario'' i st else st);
          st2 = st1\<lparr>steps := steps st1 + 1\<rparr>;
          st3 = (if truthy (current_scenario st2) \<and> \<not> in_examples st2
                 then st2\<lparr>current_steps := current_steps st2 @ [line]\<rparr> else st2)
      in if py_startswith line ''Given'' then st3\<lparr>given_count := given_count st3 + 1\<rparr>
         else if py_startswith line ''When'' then st3\<lparr>when_count := when_count st3 + 1\<rparr>
         else if py_startswith line ''Then'' then st3\<lparr>then_count := then_count st3 + 1\<rparr>
         else if py_startswith line ''And'' then st3\<lparr>and_count := and_count st3 + 1\<rparr>
         else if py_startswith line ''But'' then
           (if ck_feature_type ck = ''drive_cycle''
            then emit ''Syntax Error'' ''But not allowed in Drive Cycle format'' i st3
            else if ck_feature_type ck = ''success_criteria''
            then emit ''Syntax Error'' ''But not allowed in Success Criteria format'' i st3
            else st3)
         else st3)"

text \<open>The \<open>if\<close>/\<open>elif\<close> chain on the stripped line.\<close>

definition classify_line :: "gherkin_checker \<Rightarrow> nat \<Rightarrow> string \<Rightarrow> scan_state \<Rightarrow> scan_state" where
  "classify_line ck i line st =
     (if py_startswith line ''Feature'' then st\<lparr>has_feature := True\<rparr>
      else if py_startswith line ''Scenario'' then on_scenario ck i line st
      else if py_startswith line ''Examples'' then on_examples i st
      else if in_examples st \<and> py_startswith line ''|'' then on_table_row i line st
      else if list_ex (py_startswith line) [''Given'', ''When'', ''Then'', ''And'', ''But'']
      then on_step ck i line st
      else st)"

text \<open>
  The Drive Cycle check after the chain; \<open>n\<close> is \<open>len(lines)\<close>. It reads the counts as the
  chain has left them.
\<close>

definition drive_cycle_check :: "gherkin_checker \<Rightarrow> nat \<Rightarrow> nat \<Rightarrow> string \<Rightarrow> scan_state \<Rightarrow> scan_state" where
  "drive_cycle_check ck n i line st =
     (if (i = n \<or> (py_startswith line ''Scenario'' \<and> truthy (current_scenario st))) \<and>
         truthy (current_scenario st)
      then (if ck_feature_type ck = ''drive_cycle''
            then (let st1 = (if when_count st > 0
                             then emit ''Syntax Error'' ''When not allowed in Drive Cycle format''
                                    (scenario_start_line st) st
                             else st)
                  in if then_count st1 > 0
                     then emit ''Syntax Error'' ''Then not allowed in Drive Cycle format''
                            (scenario_start_line st1) st1
                     else st1)
            else st)
      else st)"

text \<open>The loop over \<open>bad_placeholder_pattern.findall(line)\<close>.\<close>

definition bad_placeholder_step :: "nat \<Rightarrow> test_report \<Rightarrow> string \<Rightarrow> test_report" where
  "bad_placeholder_step i r bp =
     (let bp_clean = py_strip_chars [sq] bp in
      if py_startswith bp [sq] \<and> py_endswith bp [sq] then
        add_issue r ''Invalid Placeholder Syntax''
          (''Placeholder '' @ [sq] @ bp @ [sq] @
           '' should use angle brackets with double quotes (e.g., <'' @ [dq] @ bp_clean @ [dq] @
           ''>) instead of single quotes'') i
      else if py_startswith bp [sq] \<and> \<not> py_endswith bp [sq] then
        add_issue r ''Invalid Placeholder Syntax''
          (''Placeholder '' @ [sq] @ bp @ [sq] @ '' is missing a closing quote'') i
      else if py_endswith bp [sq] \<and> \<not> py_startswith bp [sq] then
        add_issue r ''Invalid Placeholder Syntax''
          (''Placeholder '' @ [sq] @ bp @ [sq] @ '' is missing an opening quote'') i
      else r)"

definition bad_placeholder_check :: "nat \<Rightarrow> string \<Rightarrow> scan_state \<Rightarrow> scan_state" where
  "bad_placeholder_check i line st =
     st\<lparr>report := foldl (bad_placeholder_step i) (report st)
                     (re_findall bad_placeholder_pattern line)\<rparr>"

text \<open>The body of \<open>for word in words_to_check\<close>: the cache first, then the custom words.\<close>

definition spell_word ::
  "gherkin_checker \<Rightarrow> spellchecker \<Rightarrow> nat \<Rightarrow> scan_state \<Rightarrow> string \<Rightarrow> scan_state" where
  "spell_word ck sp i st word =
     (case spell_cache st word of
        Some cached \<Rightarrow>
          if cached \<noteq> [] then st\<lparr>report := add_misspelled (report st) word i cached\<rparr> else st
      | None \<Rightarrow>
          if word \<notin> ck_custom_words ck then
            (if \<not> sp_check sp word then
               (let suggestions = sp_suggest sp word in
                st\<lparr>report := add_misspelled (report st) word i suggestions,
                   spell_cache := (spell_cache st)(word \<mapsto> suggestions)\<rparr>)
             else st\<lparr>spell_cache := (spell_cache st)(word \<mapsto> [])\<rparr>)
          else st)"

text \<open>
  The words of a line that are sent to the spellchecker. The code collects them in a set,
  whose order Python leaves open; the model walks the distinct words in one fixed order (that
  of \<open>remdups\<close>). No property below depends on the order of the words of one line.
\<close>

definition words_to_check :: "string \<Rightarrow> string list" where
  "words_to_check line =
     (let cleaned_line = filter (\<lambda>c. c \<noteq> sq)
            (re_sub_empty fixed_value_pattern (re_sub_empty placeholder_pattern line));
          ws = re_findall word_pattern cleaned_line
      in remdups (map py_lower (filter (\<lambda>w. w \<notin> set gherkin_keywords) ws)))"

definition spellcheck :: "gherkin_checker \<Rightarrow> nat \<Rightarrow> string \<Rightarrow> scan_state \<Rightarrow> scan_state" where
  "spellcheck ck i line st =
     (case ck_spellchecker ck of
        None \<Rightarrow> st
      | Some sp \<Rightarrow>
          if ck_spellcheck_enabled ck \<and> \<not> py_startswith line ''#''
          then foldl (spell_word ck sp i) st (words_to_check line)
          else st)"

text \<open>The repeated-word check, skipped on a table row inside an Examples block.\<close>

definition repeated_words :: "string \<Rightarrow> string list" where
  "repeated_words line =
     (let ws = re_findall word_pattern
                 (re_sub_empty fixed_value_pattern (re_sub_empty placeholder_pattern line))
      in concat (map (\<lambda>j. if ws ! j = ws ! (j + 1) \<and> ws ! j \<notin> set gherkin_keywords
                           then [ws ! j] else [])
                  [0..<length ws - 1]))"

definition repeated_word_check :: "nat \<Rightarrow> string \<Rightarrow> scan_state \<Rightarrow> scan_state" where
  "repeated_word_check i line st =
     (if \<not> (in_examples st \<and> py_startswith line ''|'')
      then foldl (\<lambda>s w. emit ''Repeated Word'' (''Word '' @ [sq] @ w @ [sq] @ '' repeated'') i s)
             st (repeated_words line)
      else st)"

text \<open>One iteration of \<open>for i, line in enumerate(lines, 1)\<close>; \<open>n\<close> is \<open>len(lines)\<close>.\<close>

definition loop_body :: "gherkin_checker \<Rightarrow> nat \<Rightarrow> scan_state \<Rightarrow> nat \<times> string \<Rightarrow> scan_state" where
  "loop_body ck n st il =
     (let i = fst il; line = py_strip (snd il) in
      if line = [] \<or> py_startswith line ''#'' then st
      else repeated_word_check i line
             (spellcheck ck i line
               (bad_placeholder_check i line
                 (drive_cycle_check ck n i line
                   (classify_line ck i line st)))))"

text \<open>\<open>enumerate(lines, 1)\<close>\<close>

definition enumerate1 :: "string list \<Rightarrow> (nat \<times> string) list" where
  "enumerate1 lines = zip [1..<Suc (length lines)] lines"

text \<open>The loop over the first \<open>k\<close> lines of a document, for the scan of the whole of it.\<close>

definition scan_prefix :: "gherkin_checker \<Rightarrow> string list \<Rightarrow> test_report \<Rightarrow> nat \<Rightarrow> scan_state" where
  "scan_prefix ck lines r k =
     foldl (loop_body ck (length lines)) (init_state ck r) (take k (enumerate1 lines))"

text \<open>The loop and the checks that follow it.\<close>

definition scan :: "gherkin_checker \<Rightarrow> string list \<Rightarrow> test_report \<Rightarrow> scan_state" where
  "scan ck lines r =
     (let st = scan_prefix ck lines r (length lines);
          st1 = (if truthy (current_scenario st) \<and> ck_feature_type ck = ''success_criteria''
                 then success_criteria_check st else st)
      in if \<not> has_feature st1
         then emit ''Syntax Error'' ''No Feature keyword found in file'' 1 st1
         else st1)"

text \<open>
  \<open>process_file\<close>. The file system is a map from paths to the lines \<open>readlines\<close> returns;
  a path outside its domain is a file that is not found, for which the code returns
  \<open>False\<close>. Other failures of \<open>open\<close> (a directory, a missing permission), which the code
  does not catch, are outside the model. The result is the returned flag, the report and
  the checker, whose cache the scan has extended.
\<close>

definition process_file ::
  "gherkin_checker \<Rightarrow> (string \<rightharpoonup> string list) \<Rightarrow> string \<Rightarrow> test_report \<Rightarrow>
   bool \<times> test_report \<times> gherkin_checker" where
  "process_file ck fs file r =
     (let r0 = set_feature_type r (ck_feature_type ck) in
      case fs file of
        None \<Rightarrow> (False, r0, ck)
      | Some lines \<Rightarrow>
          (let st = scan ck lines r0
           in (True,
               set_filename
                 (update_stats (report st) (length lines) (scenarios st) (steps st)
                    (total_iterations st))
                 file,
               ck\<lparr>ck_spell_cache := spell_cache st\<rparr>)))"

section \<open>Specification-level notions and example inputs\<close>

text \<open>
  The sum that \<open>get_total_errors\<close> returns when every check name is a key of
  \<open>enabled_checks\<close>: one summand for each category.
\<close>

definition category_total :: "test_report \<Rightarrow> nat" where
  "category_total r =
     (if check_enabled r ''misspelled'' then length (misspelled_words r) else 0) +
     (if check_enabled r ''syntax'' then length (issues_of ''Syntax Error'' r) else 0) +
     (if check_enabled r ''placeholder_mismatch'' then length (issues_of ''Placeholder Mismatch'' r) else 0) +
     (if check_enabled r ''placeholder_order'' then length (issues_of ''Placeholder Order'' r) else 0) +
     (if check_enabled r ''invalid_placeholder'' then length (issues_of ''Invalid Placeholder Syntax'' r) else 0) +
     (if check_enabled r ''repeated_word'' then length (issues_of ''Repeated Word'' r) else 0) +
     (if check_enabled r ''drive_cycle'' \<and> feature_type r = ''drive_cycle'' then length (format_errors ''Drive Cycle'' r) else 0) +
     (if check_enabled r ''success_criteria'' \<and> feature_type r = ''success_criteria'' then length (format_errors ''Success Criteria'' r) else 0) +
     (if check_enabled r ''duplicate_scenario'' then length (issues_of ''Duplicate Scenario'' r) else 0)"

text \<open>Two empty reports, of a Drive Cycle and of a Success Criteria document.\<close>

definition drive_report :: test_report where
  "drive_report = set_feature_type (TestReport_init ''2025-01-01 09:00:00 AM'' None) ''drive_cycle''"

definition criteria_report :: test_report where
  "criteria_report = set_feature_type (TestReport_init ''2025-01-01 09:00:00 AM'' None) ''success_criteria''"

text \<open>
  Notions for the proofs about the scan: a state that differs from another one in the report
  and the cache only; a report, or the report of a state, that extends another one by
  issues of a given kind; and a kind of issues that includes every issue of a given type.
\<close>

definition no_feature_message :: string where
  "no_feature_message = ''No Feature keyword found in file''"

definition report_only :: "scan_state \<Rightarrow> scan_state \<Rightarrow> bool" where
  "report_only st st' = (\<exists>R C. st' = st\<lparr>report := R, spell_cache := C\<rparr>)"

definition radds :: "(issue \<Rightarrow> bool) \<Rightarrow> test_report \<Rightarrow> test_report \<Rightarrow> bool" where
  "radds Q r r' = (\<exists>new. issues r' = issues r @ new \<and> list_all Q new)"

definition adds :: "(issue \<Rightarrow> bool) \<Rightarrow> scan_state \<Rightarrow> scan_state \<Rightarrow> bool" where
  "adds Q st st' = radds Q (report st) (report st')"

definition accepts :: "(issue \<Rightarrow> bool) \<Rightarrow> string \<Rightarrow> bool" where
  "accepts Q kind = (\<forall>d l. Q (kind, d, l))"

definition accepts_syntax :: "(issue \<Rightarrow> bool) \<Rightarrow> bool" where
  "accepts_syntax Q = (\<forall>d l. d \<noteq> no_feature_message \<longrightarrow> Q (''Syntax Error'', d, l))"

text \<open>The issue of a document without a Feature line, and the documents that have such a line.\<close>

definition no_feature_issue :: "issue \<Rightarrow> bool" where
  "no_feature_issue x = (fst x = ''Syntax Error'' \<and> fst (snd x) = ''No Feature keyword found in file'')"

definition has_feature_line :: "string list \<Rightarrow> bool" where
  "has_feature_line lines = list_ex (\<lambda>l. py_startswith (py_strip l) ''Feature'') lines"

text \<open>
  Example inputs: a fresh report, a checker without a spellchecker, and the lines of a file
  whose lines all end with a newline.
\<close>

definition empty_report :: test_report where
  "empty_report = TestReport_init ''2025-01-01 09:00:00 AM'' None"

definition plain_checker :: "string \<Rightarrow> gherkin_checker" where
  "plain_checker ftype = GherkinChecker_init None None Map.empty {} ftype True"

definition file_lines :: "string list \<Rightarrow> string list" where
  "file_lines ls = map (\<lambda>l. l @ [nl]) ls"

text \<open>
  The scenario lines of a numbered document as (title, line number) pairs, and the Duplicate
  Scenario issues they call for: the \<open>k\<close>-th scenario line yields an issue when its title
  occurs among the earlier scenario lines, naming the line of the first of them.
\<close>

definition scenario_titles :: "(nat \<times> string) list \<Rightarrow> (string \<times> nat) list" where
  "scenario_titles ils =
     map (\<lambda>il. (py_strip (snd il), fst il))
       (filter (\<lambda>il. py_startswith (py_strip (snd il)) ''Scenario'') ils)"

definition duplicate_issue :: "nat \<Rightarrow> nat \<Rightarrow> issue" where
  "duplicate_issue first_line i =
     (''Duplicate Scenario'', ''Scenario identical to one at line '' @ py_str first_line, i)"

definition duplicate_at :: "(string \<times> nat) list \<Rightarrow> nat \<Rightarrow> issue list" where
  "duplicate_at sl k =
     (case map_of (take k sl) (fst (sl ! k)) of
        None \<Rightarrow> []
      | Some first_line \<Rightarrow> [duplicate_issue first_line (snd (sl ! k))])"

definition duplicate_issues :: "(string \<times> nat) list \<Rightarrow> issue list" where
  "duplicate_issues sl = concat (map (duplicate_at sl) [0..<length sl])"

text \<open>A document in which one title occurs three times.\<close>

definition twice_doc :: "string list" where
  "twice_doc = file_lines
     [''Feature: engine'',
      ''Scenario: start'',
      ''Given the engine is off'',
      ''Scenario: stop'',
      ''Scenario: start'',
      ''Scenario: start'']"

text \<open>
  A spellchecker that knows every word but "speling", checkers that use it, and the
  documents of the examples below.
\<close>

definition toy_speller :: spellchecker where
  "toy_speller = \<lparr>sp_check = (\<lambda>w. w \<noteq> ''speling''), sp_suggest = (\<lambda>w. [''spelling''])\<rparr>"


definition cached_checker :: gherkin_checker where
  "cached_checker = GherkinChecker_init None (Some toy_speller)
     [''speling'' \<mapsto> [''spelling'']] {''speling''} ''standard'' True"

definition two_scenarios :: "string list" where
  "two_scenarios = file_lines
     [''Feature: engine'',
      ''Scenario: first'',
      ''When the engine starts'',
      ''Scenario: second'',
      ''Given the engine is off'']"

definition outline_doc :: "string list" where
  "outline_doc = file_lines
     [''Feature: engine'',
      ''Scenario Outline: speed'',
      ''Given the speed is <\"rate\">'',
      ''Examples:'',
      ''| limit |'',
      ''| 50 |'']"

definition unclosed_doc :: "string list" where
  "unclosed_doc = file_lines
     [''Feature: engine'',
      ''Scenario: names'',
      ''Given 'name is used'']"


text \<open>A file system with one feature file.\<close>

definition example_fs :: "string \<rightharpoonup> string list" where
  "example_fs = [''engine.feature'' \<mapsto> two_scenarios]"

text \<open>
  The ordering walk as the specification words it: the tokens that are reported, given the
  column index of a name and the last position. Then the issue of a reported token, the
  headers of a table row, and the placeholder tokens of the buffered steps.
\<close>

fun out_of_order :: "(string \<rightharpoonup> nat) \<Rightarrow> int \<Rightarrow> string list \<Rightarrow> string list" where
  "out_of_order idx last_position [] = []"
| "out_of_order idx last_position (ph # phs) =
     (case idx (placeholder_name ph) of
        None \<Rightarrow> out_of_order idx last_position phs
      | Some index \<Rightarrow>
          if int index < last_position then ph # out_of_order idx last_position phs
          else out_of_order idx (max last_position (int index)) phs)"

definition order_issue :: "scan_state \<Rightarrow> nat \<Rightarrow> string \<Rightarrow> issue" where
  "order_issue st i ph = (''Placeholder Order'', order_description ph, placeholder_line st i ph)"

definition row_headers :: "string \<Rightarrow> string list" where
  "row_headers raw = map py_strip (butlast (tl (py_split (CHR ''|'') (py_strip raw))))"

definition step_placeholders :: "scan_state \<Rightarrow> string list" where
  "step_placeholders st = concat (map (re_findall placeholder_pattern) (current_steps st))"

text \<open>Headers A, B, C with steps that use B before A, and with steps that use A, B, C in order.\<close>

definition order_doc :: "string list" where
  "order_doc = file_lines
     [''Feature: gearbox'',
      ''Scenario Outline: shift'',
      ''Given the gear is <\"B\">'',
      ''When the gear becomes <\"A\">'',
      ''Examples:'',
      ''| A | B | C |'']"

definition inorder_doc :: "string list" where
  "inorder_doc = file_lines
     [''Feature: gearbox'',
      ''Scenario Outline: shift'',
      ''Given the gear is <\"A\">'',
      ''When the gear becomes <\"B\">'',
      ''Then the gear is not <\"C\">'',
      ''Examples:'',
      ''| A | B | C |'']"



section \<open>The total of a report\<close>

lemma add_category_Inr:
  "add_category r k e m acc = Inr t \<longleftrightarrow>
     (\<exists>t0. acc = Inr t0 \<and> map_of (enabled_checks r) k \<noteq> None \<and>
           t = t0 + (if check_enabled r k \<and> e then m else 0))"
  by (cases acc; cases "map_of (enabled_checks r) k") (auto simp: add_category_def check_enabled_def)

lemma add_category_isl:
  "isl (add_category r k e m acc) \<longleftrightarrow> isl acc \<or> map_of (enabled_checks r) k = None"
  by (cases acc; cases "map_of (enabled_checks r) k") (auto simp: add_category_def)

lemma get_total_errors_Inr:
  "get_total_errors r = Inr n \<Longrightarrow> n = category_total r"
  unfolding get_total_errors_def add_category_Inr category_total_def
  by (elim exE conjE) simp

lemma get_total_errors_isl:
  "enabled_checks r' = enabled_checks r \<Longrightarrow> isl (get_total_errors r') = isl (get_total_errors r)"
  unfolding get_total_errors_def add_category_isl
  by simp

lemma get_total_errors_same_keys:
  assumes "enabled_checks r' = enabled_checks r" and "get_total_errors r = Inr n"
  shows "get_total_errors r' = Inr (category_total r')"
proof -
  have "\<not> isl (get_total_errors r')"
    using get_total_errors_isl [OF assms(1)] assms(2) by simp
  then obtain m where m: "get_total_errors r' = Inr m"
    by (cases "get_total_errors r'") auto
  with get_total_errors_Inr [OF m] show ?thesis by simp
qed

lemma category_total_syntax_tagged:
  assumes "check_enabled r ''syntax''"
    and "check_enabled r k" and "feature_type r = k"
    and "(k = ''drive_cycle'' \<and> tag = ''Drive Cycle'') \<or> (k = ''success_criteria'' \<and> tag = ''Success Criteria'')"
    and "py_in tag d"
  shows "category_total (r\<lparr>issues := xs @ (''Syntax Error'', d, l) # ys\<rparr>) =
         category_total (r\<lparr>issues := xs @ ys\<rparr>) + 2"
proof -
  have ce: "\<And>zs k'. check_enabled (r\<lparr>issues := zs\<rparr>) k' = check_enabled r k'"
    by (simp add: check_enabled_def)
  from assms(4) show ?thesis
  proof
    assume "k = ''drive_cycle'' \<and> tag = ''Drive Cycle''"
    with assms(1,2,3,5) show ?thesis
      by (simp add: category_total_def ce issues_of_def format_errors_def)
  next
    assume "k = ''success_criteria'' \<and> tag = ''Success Criteria''"
    with assms(1,2,3,5) show ?thesis
      by (simp add: category_total_def ce issues_of_def format_errors_def)
  qed
qed

text \<open>
  C10. In a report whose feature type is \<open>drive_cycle\<close> and in which the checks \<open>syntax\<close>
  and \<open>drive_cycle\<close> are enabled, a Syntax Error issue whose description contains
  "Drive Cycle" counts twice in \<open>get_total_errors\<close>: the total of the report with the issue
  is the total without it plus two, wherever the issue stands in the list. The same holds
  for \<open>success_criteria\<close> and descriptions that contain "Success Criteria".
\<close>

theorem get_total_errors_double_count:
  assumes "map_of (enabled_checks r) ''syntax'' = Some True"
    and "get_total_errors (r\<lparr>issues := xs @ ys\<rparr>) = Inr n"
  shows "(feature_type r = ''drive_cycle'' \<and> map_of (enabled_checks r) ''drive_cycle'' = Some True \<and>
          py_in ''Drive Cycle'' d \<longrightarrow>
          get_total_errors (r\<lparr>issues := xs @ (''Syntax Error'', d, l) # ys\<rparr>) = Inr (n + 2)) \<and>
         (feature_type r = ''success_criteria'' \<and>
          map_of (enabled_checks r) ''success_criteria'' = Some True \<and>
          py_in ''Success Criteria'' d \<longrightarrow>
          get_total_errors (r\<lparr>issues := xs @ (''Syntax Error'', d, l) # ys\<rparr>) = Inr (n + 2))"
proof -
  let ?r0 = "r\<lparr>issues := xs @ ys\<rparr>" and ?r1 = "r\<lparr>issues := xs @ (''Syntax Error'', d, l) # ys\<rparr>"
  have keys: "enabled_checks ?r1 = enabled_checks ?r0" by simp
  have t1: "get_total_errors ?r1 = Inr (category_total ?r1)"
    by (rule get_total_errors_same_keys [OF keys assms(2)])
  have n: "n = category_total ?r0"
    by (rule get_total_errors_Inr [OF assms(2)])
  have syn: "check_enabled r ''syntax''"
    using assms(1) by (simp add: check_enabled_def)
  show ?thesis
  proof (intro conjI impI)
    assume a: "feature_type r = ''drive_cycle'' \<and> map_of (enabled_checks r) ''drive_cycle'' = Some True \<and>
          py_in ''Drive Cycle'' d"
    then have "check_enabled r ''drive_cycle''" by (simp add: check_enabled_def)
    with a syn have "category_total ?r1 = category_total ?r0 + 2"
      by (intro category_total_syntax_tagged [where k = "''drive_cycle''" and tag = "''Drive Cycle''"]) blast+
    with t1 n show "get_total_errors ?r1 = Inr (n + 2)" by simp
  next
    assume a: "feature_type r = ''success_criteria'' \<and>
          map_of (enabled_checks r) ''success_criteria'' = Some True \<and>
          py_in ''Success Criteria'' d"
    then have "check_enabled r ''success_criteria''" by (simp add: check_enabled_def)
    with a syn have "category_total ?r1 = category_total ?r0 + 2"
      by (intro category_total_syntax_tagged [where k = "''success_criteria''" and tag = "''Success Criteria''"]) blast+
    with t1 n show "get_total_errors ?r1 = Inr (n + 2)" by simp
  qed
qed

theorem get_total_errors_double_count_witness:
  "get_total_errors (drive_report\<lparr>issues := [] @ []\<rparr>) = Inr 0 \<and>
   get_total_errors
     (drive_report\<lparr>issues := [] @ [(''Syntax Error'', ''When not allowed in Drive Cycle format'', 2)]\<rparr>)
     = Inr (0 + 2) \<and>
   get_total_errors (criteria_report\<lparr>issues := [] @ []\<rparr>) = Inr 0 \<and>
   get_total_errors
     (criteria_report\<lparr>issues := [] @ [(''Syntax Error'', ''But not allowed in Success Criteria format'', 3)]\<rparr>)
     = Inr (0 + 2)"
proof -
  have d0: "get_total_errors (drive_report\<lparr>issues := [] @ []\<rparr>) = Inr 0" by code_simp
  have d1: "map_of (enabled_checks drive_report) ''syntax'' = Some True" by code_simp
  have d2: "feature_type drive_report = ''drive_cycle'' \<and>
            map_of (enabled_checks drive_report) ''drive_cycle'' = Some True \<and>
            py_in ''Drive Cycle'' ''When not allowed in Drive Cycle format''" by code_simp
  have c0: "get_total_errors (criteria_report\<lparr>issues := [] @ []\<rparr>) = Inr 0" by code_simp
  have c1: "map_of (enabled_checks criteria_report) ''syntax'' = Some True" by code_simp
  have c2: "feature_type criteria_report = ''success_criteria'' \<and>
            map_of (enabled_checks criteria_report) ''success_criteria'' = Some True \<and>
            py_in ''Success Criteria'' ''But not allowed in Success Criteria format''" by code_simp
  from get_total_errors_double_count [OF d1 d0, of "''When not allowed in Drive Cycle format''" 2] d2
    get_total_errors_double_count [OF c1 c0, of "''But not allowed in Success Criteria format''" 3] c2
    d0 c0
  show ?thesis by blast
qed

section \<open>What each part of the loop body leaves alone, and what it adds\<close>

lemma report_only_refl: "report_only st st"
proof -
  have "st = st\<lparr>report := report st, spell_cache := spell_cache st\<rparr>" by simp
  then show ?thesis unfolding report_only_def by blast
qed

lemma report_only_trans:
  assumes "report_only a b" and "report_only b c"
  shows "report_only a c"
proof -
  from assms obtain R C R' C' where
    "b = a\<lparr>report := R, spell_cache := C\<rparr>" "c = b\<lparr>report := R', spell_cache := C'\<rparr>"
    unfolding report_only_def by blast
  then have "c = a\<lparr>report := R', spell_cache := C'\<rparr>" by simp
  then show ?thesis unfolding report_only_def by blast
qed

lemma report_only_report: "report_only st (st\<lparr>report := R\<rparr>)"
proof -
  have "st\<lparr>report := R\<rparr> = st\<lparr>report := R, spell_cache := spell_cache st\<rparr>" by simp
  then show ?thesis unfolding report_only_def by blast
qed

lemma report_only_emit: "report_only st (emit t d n st)"
  unfolding emit_def by (rule report_only_report)

lemma report_only_fields:
  assumes "report_only st st'"
  shows "has_feature st' = has_feature st" "scenario_dict st' = scenario_dict st"
    "in_examples st' = in_examples st" "current_scenario st' = current_scenario st"
    "current_steps st' = current_steps st" "examples_headers st' = examples_headers st"
    "scenario_start_line st' = scenario_start_line st"
    "given_count st' = given_count st" "when_count st' = when_count st"
    "then_count st' = then_count st" "and_count st' = and_count st"
    "scenarios st' = scenarios st" "steps st' = steps st"
    "total_iterations st' = total_iterations st"
  using assms unfolding report_only_def by auto

lemma radds_refl: "radds Q r r"
  unfolding radds_def by simp

lemma radds_trans: "radds Q a b \<Longrightarrow> radds Q b c \<Longrightarrow> radds Q a c"
  unfolding radds_def by auto

lemma radds_add_issue: "Q (t, d, n) \<Longrightarrow> radds Q r (add_issue r t d n)"
  unfolding radds_def add_issue_def by simp

lemma adds_refl: "adds Q st st"
  unfolding adds_def by (rule radds_refl)

lemma adds_trans: "adds Q a b \<Longrightarrow> adds Q b c \<Longrightarrow> adds Q a c"
  unfolding adds_def by (rule radds_trans)

lemma adds_emit: "Q (t, d, n) \<Longrightarrow> adds Q st (emit t d n st)"
  unfolding adds_def emit_def by (simp add: radds_add_issue)

lemma adds_same_report: "report st' = report st \<Longrightarrow> adds Q st st'"
  unfolding adds_def by (simp add: radds_refl)

lemma adds_filter:
  assumes "adds Q st st'" and "\<And>x. Q x \<Longrightarrow> \<not> P x"
  shows "filter P (issues (report st')) = filter P (issues (report st))"
proof -
  from assms(1) obtain new where n: "issues (report st') = issues (report st) @ new" "list_all Q new"
    unfolding adds_def radds_def by blast
  from n(2) assms(2) have "filter P new = []"
    by (induction new) auto
  with n(1) show ?thesis by simp
qed

lemma syntax_ok: "accepts_syntax Q \<Longrightarrow> d \<noteq> no_feature_message \<Longrightarrow> Q (''Syntax Error'', d, l)"
  unfolding accepts_syntax_def by blast

lemma accepts_ok: "accepts Q kind \<Longrightarrow> Q (kind, d, l)"
  unfolding accepts_def by blast

lemma report_only_success_criteria_check: "report_only st (success_criteria_check st)"
  unfolding success_criteria_check_def Let_def
  by (auto intro: report_only_refl report_only_emit report_only_trans)

lemma adds_success_criteria_check:
  assumes "accepts_syntax Q"
  shows "adds Q st (success_criteria_check st)"
  unfolding success_criteria_check_def Let_def
  by (auto intro!: adds_refl adds_emit adds_trans [OF adds_emit adds_emit] syntax_ok [OF assms]
      simp: no_feature_message_def)


lemma radds_foldl:
  assumes "\<And>r x. radds Q r (f r x)"
  shows "radds Q r (foldl f r xs)"
proof (induction xs arbitrary: r)
  case Nil
  show ?case by (simp add: radds_refl)
next
  case (Cons x xs)
  show ?case using radds_trans [OF assms [of r x] Cons.IH [of "f r x"]] by simp
qed

lemma adds_foldl:
  assumes "\<And>s x. adds Q s (f s x)"
  shows "adds Q st (foldl f st xs)"
proof (induction xs arbitrary: st)
  case Nil
  show ?case by (simp add: adds_refl)
next
  case (Cons x xs)
  show ?case using adds_trans [OF assms [of st x] Cons.IH [of "f st x"]] by simp
qed

lemma report_only_foldl:
  assumes "\<And>s x. report_only s (f s x)"
  shows "report_only st (foldl f st xs)"
proof (induction xs arbitrary: st)
  case Nil
  show ?case by (simp add: report_only_refl)
next
  case (Cons x xs)
  show ?case using report_only_trans [OF assms [of st x] Cons.IH [of "f st x"]] by simp
qed

lemma report_only_drive_cycle_check: "report_only st (drive_cycle_check ck n i line st)"
  unfolding drive_cycle_check_def Let_def
  by (auto intro: report_only_refl report_only_emit report_only_trans)

lemma adds_drive_cycle_check:
  assumes "accepts_syntax Q"
  shows "adds Q st (drive_cycle_check ck n i line st)"
  unfolding drive_cycle_check_def Let_def
  by (auto intro!: adds_refl adds_emit adds_trans [OF adds_emit adds_emit] syntax_ok [OF assms]
      simp: no_feature_message_def)

lemma report_only_bad_placeholder_check: "report_only st (bad_placeholder_check i line st)"
  unfolding bad_placeholder_check_def by (rule report_only_report)

lemma radds_bad_placeholder_step:
  assumes "accepts Q ''Invalid Placeholder Syntax''"
  shows "radds Q r (bad_placeholder_step i r bp)"
  unfolding bad_placeholder_step_def Let_def
  by (auto intro!: radds_refl radds_add_issue accepts_ok [OF assms])

lemma adds_bad_placeholder_check:
  assumes "accepts Q ''Invalid Placeholder Syntax''"
  shows "adds Q st (bad_placeholder_check i line st)"
  unfolding bad_placeholder_check_def adds_def
  by (simp add: radds_foldl [OF radds_bad_placeholder_step [OF assms]])

lemma report_only_spell_word: "report_only st (spell_word ck sp i st word)"
proof -
  have a: "\<And>R. report_only st (st\<lparr>report := R\<rparr>)" by (rule report_only_report)
  have b: "\<And>R C. report_only st (st\<lparr>report := R, spell_cache := C\<rparr>)"
    unfolding report_only_def by blast
  have c: "\<And>C. report_only st (st\<lparr>spell_cache := C\<rparr>)"
  proof -
    fix C
    have "st\<lparr>spell_cache := C\<rparr> = st\<lparr>report := report st, spell_cache := C\<rparr>" by simp
    then show "report_only st (st\<lparr>spell_cache := C\<rparr>)" unfolding report_only_def by blast
  qed
  show ?thesis
    unfolding spell_word_def Let_def
    by (auto split: option.splits intro: a b c report_only_refl)
qed

lemma issues_spell_word: "issues (report (spell_word ck sp i st word)) = issues (report st)"
  unfolding spell_word_def Let_def add_misspelled_def
  by (auto split: option.splits)

lemma report_only_spellcheck: "report_only st (spellcheck ck i line st)"
  unfolding spellcheck_def
  by (auto split: option.splits intro: report_only_refl report_only_foldl report_only_spell_word)

lemma issues_foldl_spell_word:
  "issues (report (foldl (spell_word ck sp i) st ws)) = issues (report st)"
  by (induction ws arbitrary: st) (simp_all add: issues_spell_word)

lemma issues_spellcheck: "issues (report (spellcheck ck i line st)) = issues (report st)"
  unfolding spellcheck_def
  by (auto split: option.splits simp: issues_foldl_spell_word)

lemma adds_spellcheck: "adds Q st (spellcheck ck i line st)"
  unfolding adds_def radds_def by (simp add: issues_spellcheck)

lemma report_only_repeated_word_check: "report_only st (repeated_word_check i line st)"
  unfolding repeated_word_check_def
  by (auto intro: report_only_refl report_only_foldl report_only_emit)

lemma adds_repeated_word_check:
  assumes "accepts Q ''Repeated Word''"
  shows "adds Q st (repeated_word_check i line st)"
  unfolding repeated_word_check_def
  by (auto intro!: adds_refl adds_foldl adds_emit accepts_ok [OF assms])

lemma issues_repeated_word_check_row:
  "in_examples st \<Longrightarrow> py_startswith line ''|'' \<Longrightarrow> repeated_word_check i line st = st"
  unfolding repeated_word_check_def by simp

lemma emit_fields:
  "has_feature (emit t d n st) = has_feature st"
  "scenario_dict (emit t d n st) = scenario_dict st"
  "in_examples (emit t d n st) = in_examples st"
  "current_scenario (emit t d n st) = current_scenario st"
  "scenarios (emit t d n st) = scenarios st"
  "steps (emit t d n st) = steps st"
  unfolding emit_def by simp_all

lemma filter_issues_emit:
  "filter P (issues (report (emit t d n st))) =
   filter P (issues (report st)) @ (if P (t, d, n) then [(t, d, n)] else [])"
  unfolding emit_def add_issue_def by simp

lemma on_examples_fields:
  "has_feature (on_examples i st) = has_feature st"
  "scenario_dict (on_examples i st) = scenario_dict st"
  "in_examples (on_examples i st)"
  unfolding on_examples_def Let_def by (simp_all add: emit_fields)

lemma adds_on_examples:
  assumes "accepts_syntax Q"
  shows "adds Q st (on_examples i st)"
proof -
  have "adds Q st (if \<not> truthy (current_scenario st)
                   then emit ''Syntax Error'' ''Examples found outside a Scenario'' i st else st)"
    by (auto intro!: adds_refl adds_emit syntax_ok [OF assms] simp: no_feature_message_def)
  then show ?thesis
    unfolding on_examples_def Let_def adds_def by simp
qed

lemma on_step_fields:
  "has_feature (on_step ck i line st) = has_feature st"
  "scenario_dict (on_step ck i line st) = scenario_dict st"
  "in_examples (on_step ck i line st) = in_examples st"
  unfolding on_step_def Let_def by (simp_all add: emit_fields)

lemma adds_on_step:
  assumes "accepts_syntax Q"
  shows "adds Q st (on_step ck i line st)"
proof -
  define st1 where "st1 = (if \<not> truthy (current_scenario st)
                 then emit ''Syntax Error'' ''Step found outside a Scenario'' i st else st)"
  define st2 where "st2 = st1\<lparr>steps := steps st1 + 1\<rparr>"
  define st3 where "st3 = (if truthy (current_scenario st2) \<and> \<not> in_examples st2
                 then st2\<lparr>current_steps := current_steps st2 @ [line]\<rparr> else st2)"
  have a1: "adds Q st st1"
    unfolding st1_def
    by (auto intro!: adds_refl adds_emit syntax_ok [OF assms] simp: no_feature_message_def)
  have "report st3 = report st1"
    unfolding st3_def st2_def by simp
  then have a3: "adds Q st st3"
    using a1 unfolding adds_def by simp
  have fin: "adds Q st3 (if py_startswith line ''Given'' then st3\<lparr>given_count := given_count st3 + 1\<rparr>
         else if py_startswith line ''When'' then st3\<lparr>when_count := when_count st3 + 1\<rparr>
         else if py_startswith line ''Then'' then st3\<lparr>then_count := then_count st3 + 1\<rparr>
         else if py_startswith line ''And'' then st3\<lparr>and_count := and_count st3 + 1\<rparr>
         else if py_startswith line ''But'' then
           (if ck_feature_type ck = ''drive_cycle''
            then emit ''Syntax Error'' ''But not allowed in Drive Cycle format'' i st3
            else if ck_feature_type ck = ''success_criteria''
            then emit ''Syntax Error'' ''But not allowed in Success Criteria format'' i st3
            else st3)
         else st3)"
  proof -
    have e: "\<And>d. d \<noteq> no_feature_message \<Longrightarrow> adds Q st3 (emit ''Syntax Error'' d i st3)"
      by (intro adds_emit syntax_ok [OF assms])
    have u: "\<And>s. report s = report st3 \<Longrightarrow> adds Q st3 s"
      by (rule adds_same_report)
    show ?thesis
      by (simp add: e u adds_refl no_feature_message_def)
  qed
  have "on_step ck i line st = (if py_startswith line ''Given'' then st3\<lparr>given_count := given_count st3 + 1\<rparr>
         else if py_startswith line ''When'' then st3\<lparr>when_count := when_count st3 + 1\<rparr>
         else if py_startswith line ''Then'' then st3\<lparr>then_count := then_count st3 + 1\<rparr>
         else if py_startswith line ''And'' then st3\<lparr>and_count := and_count st3 + 1\<rparr>
         else if py_startswith line ''But'' then
           (if ck_feature_type ck = ''drive_cycle''
            then emit ''Syntax Error'' ''But not allowed in Drive Cycle format'' i st3
            else if ck_feature_type ck = ''success_criteria''
            then emit ''Syntax Error'' ''But not allowed in Success Criteria format'' i st3
            else st3)
         else st3)"
    unfolding on_step_def st3_def st2_def st1_def Let_def ..
  with adds_trans [OF a3 fin] show ?thesis by simp
qed

lemma radds_mismatch_loop:
  assumes "accepts Q ''Placeholder Mismatch''"
  shows "radds Q r (mismatch_loop hdrs line_of used r)"
  unfolding mismatch_loop_def
  by (rule radds_foldl) (auto intro!: radds_refl radds_add_issue accepts_ok [OF assms])

lemma radds_order_loop:
  assumes "accepts Q ''Placeholder Order''"
  shows "radds Q r (order_loop ho line_of phs last_pos r)"
proof (induction phs arbitrary: last_pos r)
  case Nil
  show ?case by (simp add: radds_refl)
next
  case (Cons ph phs)
  show ?case
  proof (cases "ho (placeholder_name ph)")
    case None
    with Cons.IH show ?thesis by simp
  next
    case (Some cp)
    have "radds Q r (if int cp < last_pos
             then add_issue r ''Placeholder Order'' (order_description ph) (line_of ph)
             else r)"
      by (auto intro!: radds_refl radds_add_issue accepts_ok [OF assms])
    from radds_trans [OF this Cons.IH] Some show ?thesis by simp
  qed
qed

lemma capture_headers_fields:
  "has_feature (capture_headers i line st) = has_feature st"
  "scenario_dict (capture_headers i line st) = scenario_dict st"
  "in_examples (capture_headers i line st) = in_examples st"
  unfolding capture_headers_def Let_def by simp_all

lemma adds_capture_headers:
  assumes "accepts Q ''Placeholder Mismatch''" and "accepts Q ''Placeholder Order''"
  shows "adds Q st (capture_headers i line st)"
  unfolding capture_headers_def Let_def adds_def
  by (auto intro!: radds_trans [OF radds_mismatch_loop [OF assms(1)] radds_order_loop [OF assms(2)]]
      radds_mismatch_loop [OF assms(1)])

lemma on_table_row_fields:
  "has_feature (on_table_row i line st) = has_feature st"
  "scenario_dict (on_table_row i line st) = scenario_dict st"
  "in_examples (on_table_row i line st) = in_examples st"
  unfolding on_table_row_def by (simp_all add: capture_headers_fields)

lemma adds_on_table_row:
  assumes "accepts Q ''Placeholder Mismatch''" and "accepts Q ''Placeholder Order''"
  shows "adds Q st (on_table_row i line st)"
  unfolding on_table_row_def
  by (auto intro!: adds_capture_headers [OF assms] adds_same_report)

lemma on_scenario_has_feature: "has_feature (on_scenario ck i line st) = has_feature st"
proof -
  have "has_feature (success_criteria_check st) = has_feature st"
    by (rule report_only_fields(1) [OF report_only_success_criteria_check])
  then show ?thesis
    unfolding on_scenario_def Let_def
    by (simp add: emit_fields split: option.splits)
qed

lemma on_scenario_in_examples: "\<not> in_examples (on_scenario ck i line st)"
  unfolding on_scenario_def Let_def by simp

lemma on_scenario_scenario_dict:
  "scenario_dict (on_scenario ck i line st) =
     (case scenario_dict st line of
        Some first_line \<Rightarrow> scenario_dict st
      | None \<Rightarrow> (scenario_dict st)(line \<mapsto> i))"
proof -
  have "scenario_dict (success_criteria_check st) = scenario_dict st"
    by (rule report_only_fields(2) [OF report_only_success_criteria_check])
  then show ?thesis
    unfolding on_scenario_def Let_def
    by (simp add: emit_fields split: option.splits)
qed

text \<open>The state of \<open>on_scenario\<close> before the look-up of the title.\<close>

lemma on_scenario_issues:
  assumes "accepts_syntax Q"
  shows "\<exists>st3. adds Q st st3 \<and> scenario_dict st3 = scenario_dict st \<and>
           issues (report (on_scenario ck i line st)) =
           issues (report st3) @
           (case scenario_dict st line of
              Some first_line \<Rightarrow>
                [(''Duplicate Scenario'',
                  ''Scenario identical to one at line '' @ py_str first_line, i)]
            | None \<Rightarrow> [])"
proof -
  define st1 where "st1 = (if truthy (current_scenario st) \<and> ck_feature_type ck = ''success_criteria''
                 then success_criteria_check st else st)"
  define st2 where "st2 = (if \<not> has_feature st1
                 then emit ''Syntax Error'' ''Scenario found before Feature'' i st1 else st1)"
  define st3 where "st3 = st2\<lparr>scenarios := scenarios st2 + 1\<rparr>"
  have a1: "adds Q st st1"
    unfolding st1_def by (simp add: adds_refl adds_success_criteria_check [OF assms])
  have a2: "adds Q st1 st2"
    unfolding st2_def
    by (auto intro!: adds_refl adds_emit syntax_ok [OF assms] simp: no_feature_message_def)
  have a3: "adds Q st2 st3"
    unfolding st3_def by (simp add: adds_same_report)
  have a: "adds Q st st3"
    by (rule adds_trans [OF adds_trans [OF a1 a2] a3])
  have d1: "scenario_dict st1 = scenario_dict st"
    unfolding st1_def
    by (simp add: report_only_fields(2) [OF report_only_success_criteria_check])
  have d: "scenario_dict st3 = scenario_dict st"
    unfolding st3_def st2_def by (simp add: emit_fields d1)
  have "issues (report (on_scenario ck i line st)) =
        issues (report (case scenario_dict st3 line of
                   Some first_line \<Rightarrow>
                     emit ''Duplicate Scenario''
                       (''Scenario identical to one at line '' @ py_str first_line) i st3
                 | None \<Rightarrow> st3\<lparr>scenario_dict := (scenario_dict st3)(line \<mapsto> i)\<rparr>))"
    unfolding on_scenario_def st3_def st2_def st1_def Let_def by simp
  also have "\<dots> = issues (report st3) @
           (case scenario_dict st line of
              Some first_line \<Rightarrow>
                [(''Duplicate Scenario'',
                  ''Scenario identical to one at line '' @ py_str first_line, i)]
            | None \<Rightarrow> [])"
    unfolding d by (simp add: emit_def add_issue_def split: option.splits)
  finally show ?thesis using a d by blast
qed

lemma adds_on_scenario:
  assumes "accepts_syntax Q" and "accepts Q ''Duplicate Scenario''"
  shows "adds Q st (on_scenario ck i line st)"
proof -
  from on_scenario_issues [OF assms(1), of st ck i line] obtain st3 where
    a: "adds Q st st3" and
    i: "issues (report (on_scenario ck i line st)) =
           issues (report st3) @
           (case scenario_dict st line of
              Some first_line \<Rightarrow>
                [(''Duplicate Scenario'',
                  ''Scenario identical to one at line '' @ py_str first_line, i)]
            | None \<Rightarrow> [])"
    by blast
  have "adds Q st3 (on_scenario ck i line st)"
    unfolding adds_def radds_def i
    by (simp add: accepts_ok [OF assms(2)] split: option.splits)
  with a show ?thesis by (rule adds_trans)
qed

lemma filter_on_scenario:
  assumes "accepts_syntax Q" and "\<And>x. Q x \<Longrightarrow> \<not> P x"
  shows "filter P (issues (report (on_scenario ck i line st))) =
         filter P (issues (report st)) @
         filter P (case scenario_dict st line of
              Some first_line \<Rightarrow>
                [(''Duplicate Scenario'',
                  ''Scenario identical to one at line '' @ py_str first_line, i)]
            | None \<Rightarrow> [])"
proof -
  from on_scenario_issues [OF assms(1), of st ck i line] obtain st3 where
    a: "adds Q st st3" and
    i: "issues (report (on_scenario ck i line st)) =
           issues (report st3) @
           (case scenario_dict st line of
              Some first_line \<Rightarrow>
                [(''Duplicate Scenario'',
                  ''Scenario identical to one at line '' @ py_str first_line, i)]
            | None \<Rightarrow> [])"
    by blast
  show ?thesis
    unfolding i by (simp add: adds_filter [OF a assms(2)])
qed

lemma startswith_head: "py_startswith s (a # p) \<Longrightarrow> \<exists>t. s = a # t"
  unfolding py_startswith_def by (cases s) auto

lemma startswith_clash:
  "py_startswith s (a # p) \<Longrightarrow> a \<noteq> b \<Longrightarrow> \<not> py_startswith s (b # q)"
  unfolding py_startswith_def by (cases s) auto

lemma startswith_nonempty: "py_startswith s (a # p) \<Longrightarrow> s \<noteq> []"
  unfolding py_startswith_def by (cases s) auto

lemma scenario_line_processed:
  assumes "py_startswith line ''Scenario''"
  shows "line \<noteq> []" "\<not> py_startswith line ''#''" "\<not> py_startswith line ''Feature''"
  using assms startswith_nonempty [OF assms] startswith_clash [OF assms] by auto

lemma feature_line_processed:
  assumes "py_startswith line ''Feature''"
  shows "line \<noteq> []" "\<not> py_startswith line ''#''"
  using assms startswith_nonempty [OF assms] startswith_clash [OF assms] by auto

lemma table_row_processed:
  assumes "py_startswith line ''|''"
  shows "line \<noteq> []" "\<not> py_startswith line ''#''" "\<not> py_startswith line ''Feature''"
    "\<not> py_startswith line ''Scenario''" "\<not> py_startswith line ''Examples''"
  using assms startswith_nonempty [OF assms] startswith_clash [OF assms] by auto

lemma classify_line_has_feature:
  "has_feature (classify_line ck i line st) = (has_feature st \<or> py_startswith line ''Feature'')"
  unfolding classify_line_def
  by (simp add: on_scenario_has_feature on_examples_fields on_table_row_fields on_step_fields)

lemma classify_line_scenario_dict:
  "scenario_dict (classify_line ck i line st) =
     (if py_startswith line ''Scenario''
      then (case scenario_dict st line of
              Some first_line \<Rightarrow> scenario_dict st
            | None \<Rightarrow> (scenario_dict st)(line \<mapsto> i))
      else scenario_dict st)"
  unfolding classify_line_def
  by (simp add: on_scenario_scenario_dict on_examples_fields on_table_row_fields on_step_fields
      scenario_line_processed)

lemma adds_classify_line:
  assumes "accepts_syntax Q" and "accepts Q ''Duplicate Scenario''"
    and "accepts Q ''Placeholder Mismatch''" and "accepts Q ''Placeholder Order''"
  shows "adds Q st (classify_line ck i line st)"
  unfolding classify_line_def
  by (simp add: adds_same_report adds_refl adds_on_scenario [OF assms(1,2)]
      adds_on_examples [OF assms(1)] adds_on_table_row [OF assms(3,4)] adds_on_step [OF assms(1)])

lemma filter_classify_line:
  assumes "accepts_syntax Q" and "accepts Q ''Placeholder Mismatch''"
    and "accepts Q ''Placeholder Order''" and "\<And>x. Q x \<Longrightarrow> \<not> P x"
  shows "filter P (issues (report (classify_line ck i line st))) =
         filter P (issues (report st)) @
         (if py_startswith line ''Scenario''
          then filter P (case scenario_dict st line of
              Some first_line \<Rightarrow>
                [(''Duplicate Scenario'',
                  ''Scenario identical to one at line '' @ py_str first_line, i)]
            | None \<Rightarrow> [])
          else [])"
proof -
  have f: "\<And>s. adds Q st s \<Longrightarrow> filter P (issues (report s)) = filter P (issues (report st))"
    by (rule adds_filter [OF _ assms(4)])
  show ?thesis
    unfolding classify_line_def
    by (simp add: filter_on_scenario [OF assms(1,4)] scenario_line_processed
      f [OF adds_on_examples [OF assms(1)]] f [OF adds_on_table_row [OF assms(2,3)]]
      f [OF adds_on_step [OF assms(1)]])
qed

text \<open>The checks of the loop body that follow the classification.\<close>

lemma report_only_tail:
  "report_only st
     (repeated_word_check i line (spellcheck ck i line
        (bad_placeholder_check i line (drive_cycle_check ck n i line st))))"
  by (rule report_only_trans [OF report_only_drive_cycle_check
        report_only_trans [OF report_only_bad_placeholder_check
          report_only_trans [OF report_only_spellcheck report_only_repeated_word_check]]])

lemma adds_tail:
  assumes "accepts_syntax Q" and "accepts Q ''Invalid Placeholder Syntax''"
    and "accepts Q ''Repeated Word''"
  shows "adds Q st
     (repeated_word_check i line (spellcheck ck i line
        (bad_placeholder_check i line (drive_cycle_check ck n i line st))))"
  by (rule adds_trans [OF adds_drive_cycle_check [OF assms(1)]
        adds_trans [OF adds_bad_placeholder_check [OF assms(2)]
          adds_trans [OF adds_spellcheck adds_repeated_word_check [OF assms(3)]]]])

lemma loop_body_has_feature:
  "has_feature (loop_body ck n st il) =
     (has_feature st \<or> py_startswith (py_strip (snd il)) ''Feature'')"
  unfolding loop_body_def Let_def
  using feature_line_processed [of "py_strip (snd il)"]
  by (auto simp: report_only_fields(1) [OF report_only_tail] classify_line_has_feature)

lemma loop_body_scenario_dict:
  "scenario_dict (loop_body ck n st il) =
     (if py_startswith (py_strip (snd il)) ''Scenario''
      then (case scenario_dict st (py_strip (snd il)) of
              Some first_line \<Rightarrow> scenario_dict st
            | None \<Rightarrow> (scenario_dict st)(py_strip (snd il) \<mapsto> fst il))
      else scenario_dict st)"
  unfolding loop_body_def Let_def
  using scenario_line_processed [of "py_strip (snd il)"]
  by (auto simp: report_only_fields(2) [OF report_only_tail] classify_line_scenario_dict)

lemma adds_loop_body:
  assumes "accepts_syntax Q" and "accepts Q ''Duplicate Scenario''"
    and "accepts Q ''Placeholder Mismatch''" and "accepts Q ''Placeholder Order''"
    and "accepts Q ''Invalid Placeholder Syntax''" and "accepts Q ''Repeated Word''"
  shows "adds Q st (loop_body ck n st il)"
  unfolding loop_body_def Let_def
  by (simp add: adds_refl
      adds_trans [OF adds_classify_line [OF assms(1,2,3,4)] adds_tail [OF assms(1,5,6)]])

lemma filter_loop_body:
  assumes "accepts_syntax Q" and "accepts Q ''Placeholder Mismatch''"
    and "accepts Q ''Placeholder Order''"
    and "accepts Q ''Invalid Placeholder Syntax''" and "accepts Q ''Repeated Word''"
    and "\<And>x. Q x \<Longrightarrow> \<not> P x"
  shows "filter P (issues (report (loop_body ck n st il))) =
         filter P (issues (report st)) @
         (if py_startswith (py_strip (snd il)) ''Scenario''
          then filter P (case scenario_dict st (py_strip (snd il)) of
              Some first_line \<Rightarrow>
                [(''Duplicate Scenario'',
                  ''Scenario identical to one at line '' @ py_str first_line, fst il)]
            | None \<Rightarrow> [])
          else [])"
  unfolding loop_body_def Let_def
  using scenario_line_processed [of "py_strip (snd il)"]
  by (auto simp: adds_filter [OF adds_tail [OF assms(1,4,5)] assms(6)]
      filter_classify_line [OF assms(1,2,3,6)])

section \<open>The whole scan\<close>

lemma upt_from_one_length: "length [1..<Suc n] = n"
  by simp

lemma enumerate1_length: "length (enumerate1 lines) = length lines"
  unfolding enumerate1_def length_zip upt_from_one_length by simp

lemma enumerate1_snd: "map snd (enumerate1 lines) = lines"
  unfolding enumerate1_def by (rule map_snd_zip) (rule upt_from_one_length)

lemma scan_prefix_full:
  "scan_prefix ck lines r (length lines) =
   foldl (loop_body ck (length lines)) (init_state ck r) (enumerate1 lines)"
  unfolding scan_prefix_def by (simp add: enumerate1_length)

lemma foldl_loop_body_has_feature:
  "has_feature (foldl (loop_body ck n) st ils) =
     (has_feature st \<or> list_ex (\<lambda>l. py_startswith (py_strip l) ''Feature'') (map snd ils))"
  by (induction ils arbitrary: st) (auto simp: loop_body_has_feature)

lemma scan_prefix_has_feature:
  "has_feature (scan_prefix ck lines r (length lines)) = has_feature_line lines"
  unfolding scan_prefix_full foldl_loop_body_has_feature has_feature_line_def enumerate1_snd
  by (simp add: init_state_def)

lemma not_no_feature_accepts:
  "accepts_syntax (\<lambda>x. \<not> no_feature_issue x)"
  "accepts (\<lambda>x. \<not> no_feature_issue x) ''Duplicate Scenario''"
  "accepts (\<lambda>x. \<not> no_feature_issue x) ''Placeholder Mismatch''"
  "accepts (\<lambda>x. \<not> no_feature_issue x) ''Placeholder Order''"
  "accepts (\<lambda>x. \<not> no_feature_issue x) ''Invalid Placeholder Syntax''"
  "accepts (\<lambda>x. \<not> no_feature_issue x) ''Repeated Word''"
  unfolding accepts_syntax_def accepts_def no_feature_issue_def no_feature_message_def
  by simp_all

lemma adds_scan_prefix:
  assumes "accepts_syntax Q" and "accepts Q ''Duplicate Scenario''"
    and "accepts Q ''Placeholder Mismatch''" and "accepts Q ''Placeholder Order''"
    and "accepts Q ''Invalid Placeholder Syntax''" and "accepts Q ''Repeated Word''"
  shows "adds Q (init_state ck r) (scan_prefix ck lines r k)"
  unfolding scan_prefix_def
  by (rule adds_foldl) (rule adds_loop_body [OF assms])

text \<open>
  C6. A scan adds the issue "No Feature keyword found in file" exactly once, as a Syntax
  Error at line 1, when no stripped line of the document starts with \<open>Feature\<close>, and never
  when one does, whatever else the document holds: among the issues of the scanned report,
  those with this type and description are the ones the report had before, followed by that
  one issue or by nothing.
\<close>

theorem no_feature_reported_once:
  "filter no_feature_issue (issues (report (scan ck lines r))) =
   filter no_feature_issue (issues r) @
   (if has_feature_line lines then []
    else [(''Syntax Error'', ''No Feature keyword found in file'', 1)])"
proof -
  let ?Q = "\<lambda>x. \<not> no_feature_issue x"
  define st where "st = scan_prefix ck lines r (length lines)"
  define st1 where "st1 = (if truthy (current_scenario st) \<and> ck_feature_type ck = ''success_criteria''
                 then success_criteria_check st else st)"
  have q: "\<And>x. ?Q x \<Longrightarrow> \<not> no_feature_issue x" by simp
  have "adds ?Q (init_state ck r) st"
    unfolding st_def by (rule adds_scan_prefix [OF not_no_feature_accepts])
  moreover have "adds ?Q st st1"
    unfolding st1_def
    by (simp add: adds_refl adds_success_criteria_check [OF not_no_feature_accepts(1)])
  ultimately have "adds ?Q (init_state ck r) st1"
    by (rule adds_trans)
  from adds_filter [OF this q]
  have kept: "filter no_feature_issue (issues (report st1)) = filter no_feature_issue (issues r)"
    by (simp add: init_state_def)
  have hf: "has_feature st1 = has_feature_line lines"
    unfolding st1_def
    by (simp add: report_only_fields(1) [OF report_only_success_criteria_check]
        st_def scan_prefix_has_feature)
  have "scan ck lines r =
        (if \<not> has_feature st1
         then emit ''Syntax Error'' ''No Feature keyword found in file'' 1 st1 else st1)"
    unfolding scan_def st1_def st_def Let_def ..
  then show ?thesis
    by (simp add: hf kept filter_issues_emit no_feature_issue_def)
qed

section \<open>Duplicate scenarios\<close>

lemma scenario_titles_snoc:
  "scenario_titles (ils @ [il]) =
   scenario_titles ils @
   (if py_startswith (py_strip (snd il)) ''Scenario'' then [(py_strip (snd il), fst il)] else [])"
  unfolding scenario_titles_def by simp

lemma scenario_titles_append:
  "scenario_titles (xs @ ys) = scenario_titles xs @ scenario_titles ys"
  unfolding scenario_titles_def by simp

lemma map_of_snoc:
  "map_of (sl @ [(t, i)]) =
     (case map_of sl t of Some first_line \<Rightarrow> map_of sl | None \<Rightarrow> (map_of sl)(t \<mapsto> i))"
  by (rule ext) (auto simp: map_add_def split: option.splits)

lemma map_of_prefix_le: "map_of xs \<subseteq>\<^sub>m map_of (xs @ ys)"
  unfolding map_le_def by (auto simp: map_add_def split: option.splits)

lemma duplicate_at_snoc:
  "k < length sl \<Longrightarrow> duplicate_at (sl @ [x]) k = duplicate_at sl k"
  unfolding duplicate_at_def by (simp add: nth_append split: option.splits)

lemma duplicate_at_last:
  "duplicate_at (sl @ [(t, i)]) (length sl) =
     (case map_of sl t of None \<Rightarrow> [] | Some first_line \<Rightarrow> [duplicate_issue first_line i])"
  unfolding duplicate_at_def by (simp split: option.splits)

lemma duplicate_issues_snoc:
  "duplicate_issues (sl @ [(t, i)]) =
   duplicate_issues sl @
   (case map_of sl t of None \<Rightarrow> [] | Some first_line \<Rightarrow> [duplicate_issue first_line i])"
proof -
  have "map (duplicate_at (sl @ [(t, i)])) [0..<length sl] = map (duplicate_at sl) [0..<length sl]"
    by (rule map_cong [OF refl]) (simp add: duplicate_at_snoc)
  then have c: "concat (map (duplicate_at (sl @ [(t, i)])) [0..<length sl]) =
                concat (map (duplicate_at sl) [0..<length sl])"
    by (rule arg_cong)
  show ?thesis
    unfolding duplicate_issues_def by (simp add: duplicate_at_last c)
qed

lemma not_duplicate_accepts:
  "accepts_syntax (\<lambda>x. fst x \<noteq> ''Duplicate Scenario'')"
  "accepts (\<lambda>x. fst x \<noteq> ''Duplicate Scenario'') ''Placeholder Mismatch''"
  "accepts (\<lambda>x. fst x \<noteq> ''Duplicate Scenario'') ''Placeholder Order''"
  "accepts (\<lambda>x. fst x \<noteq> ''Duplicate Scenario'') ''Invalid Placeholder Syntax''"
  "accepts (\<lambda>x. fst x \<noteq> ''Duplicate Scenario'') ''Repeated Word''"
  unfolding accepts_syntax_def accepts_def by simp_all

lemma loop_body_duplicates:
  "issues_of ''Duplicate Scenario'' (report (loop_body ck n st il)) =
   issues_of ''Duplicate Scenario'' (report st) @
   (if py_startswith (py_strip (snd il)) ''Scenario''
    then (case scenario_dict st (py_strip (snd il)) of
            None \<Rightarrow> []
          | Some first_line \<Rightarrow> [duplicate_issue first_line (fst il)])
    else [])"
proof -
  have q: "\<And>x::issue. fst x \<noteq> ''Duplicate Scenario'' \<Longrightarrow> \<not> fst x = ''Duplicate Scenario''"
    by simp
  have "filter (\<lambda>x. fst x = ''Duplicate Scenario'') (issues (report (loop_body ck n st il))) =
         filter (\<lambda>x. fst x = ''Duplicate Scenario'') (issues (report st)) @
         (if py_startswith (py_strip (snd il)) ''Scenario''
          then filter (\<lambda>x. fst x = ''Duplicate Scenario'')
            (case scenario_dict st (py_strip (snd il)) of
              Some first_line \<Rightarrow>
                [(''Duplicate Scenario'',
                  ''Scenario identical to one at line '' @ py_str first_line, fst il)]
            | None \<Rightarrow> [])
          else [])"
    by (rule filter_loop_body [OF not_duplicate_accepts q])
  then show ?thesis
    unfolding issues_of_def
    by (simp add: duplicate_issue_def split: option.splits)
qed

lemma foldl_loop_body_duplicates:
  assumes "scenario_dict st = Map.empty"
  shows "scenario_dict (foldl (loop_body ck n) st ils) = map_of (scenario_titles ils) \<and>
         issues_of ''Duplicate Scenario'' (report (foldl (loop_body ck n) st ils)) =
         issues_of ''Duplicate Scenario'' (report st) @ duplicate_issues (scenario_titles ils)"
proof (induction ils rule: rev_induct)
  case Nil
  show ?case by (simp add: assms scenario_titles_def duplicate_issues_def)
next
  case (snoc il ils)
  then show ?case
    by (simp add: loop_body_scenario_dict loop_body_duplicates scenario_titles_snoc
        map_of_snoc duplicate_issues_snoc del: map_of_append split: option.splits)
qed

lemma scan_after_loop:
  "scenario_dict (scan ck lines r) = scenario_dict (scan_prefix ck lines r (length lines))"
  "issues_of ''Duplicate Scenario'' (report (scan ck lines r)) =
   issues_of ''Duplicate Scenario'' (report (scan_prefix ck lines r (length lines)))"
proof -
  define st where "st = scan_prefix ck lines r (length lines)"
  define st1 where "st1 = (if truthy (current_scenario st) \<and> ck_feature_type ck = ''success_criteria''
                 then success_criteria_check st else st)"
  have s: "scan ck lines r =
        (if \<not> has_feature st1
         then emit ''Syntax Error'' ''No Feature keyword found in file'' 1 st1 else st1)"
    unfolding scan_def st1_def st_def Let_def ..
  have d1: "scenario_dict st1 = scenario_dict st"
    unfolding st1_def
    by (simp add: report_only_fields(2) [OF report_only_success_criteria_check])
  have q: "\<And>x::issue. fst x \<noteq> ''Duplicate Scenario'' \<Longrightarrow> \<not> fst x = ''Duplicate Scenario''"
    by simp
  have "adds (\<lambda>x. fst x \<noteq> ''Duplicate Scenario'') st st1"
    unfolding st1_def
    by (simp add: adds_refl adds_success_criteria_check [OF not_duplicate_accepts(1)])
  from adds_filter [OF this q]
  have i1: "issues_of ''Duplicate Scenario'' (report st1) = issues_of ''Duplicate Scenario'' (report st)"
    unfolding issues_of_def .
  show "scenario_dict (scan ck lines r) = scenario_dict (scan_prefix ck lines r (length lines))"
    unfolding s using d1 by (simp add: emit_fields st_def)
  show "issues_of ''Duplicate Scenario'' (report (scan ck lines r)) =
   issues_of ''Duplicate Scenario'' (report (scan_prefix ck lines r (length lines)))"
    unfolding s using i1 by (simp add: issues_of_def filter_issues_emit st_def)
qed

text \<open>
  C8. In every document the duplicate index maps each scenario title to the line of its
  first occurrence, after every number of lines scanned, and an entry, once made, stays as
  it is for the rest of the scan. The Duplicate Scenario issues that a scan adds are, in the
  order of the scenario lines, one issue for every scenario line whose title occurs on an
  earlier scenario line, reported at its own line and naming the line of the first occurrence;
  a first occurrence yields none.
\<close>

theorem duplicate_scenarios_by_first_occurrence:
  "issues_of ''Duplicate Scenario'' (report (scan ck lines r)) =
     issues_of ''Duplicate Scenario'' r @ duplicate_issues (scenario_titles (enumerate1 lines)) \<and>
   scenario_dict (scan ck lines r) = map_of (scenario_titles (enumerate1 lines)) \<and>
   (\<forall>k. scenario_dict (scan_prefix ck lines r k) =
          map_of (scenario_titles (take k (enumerate1 lines)))) \<and>
   (\<forall>j k. j \<le> k \<longrightarrow>
      scenario_dict (scan_prefix ck lines r j) \<subseteq>\<^sub>m scenario_dict (scan_prefix ck lines r k))"
proof -
  have e: "scenario_dict (init_state ck r) = Map.empty"
    by (simp add: init_state_def)
  have pre: "\<And>k. scenario_dict (scan_prefix ck lines r k) =
          map_of (scenario_titles (take k (enumerate1 lines)))"
    unfolding scan_prefix_def using foldl_loop_body_duplicates [OF e] by blast
  have full: "take (length lines) (enumerate1 lines) = enumerate1 lines"
    by (simp add: enumerate1_length)
  have a: "issues_of ''Duplicate Scenario'' (report (scan ck lines r)) =
     issues_of ''Duplicate Scenario'' r @ duplicate_issues (scenario_titles (enumerate1 lines))"
    unfolding scan_after_loop scan_prefix_full
    using foldl_loop_body_duplicates [OF e, of ck "length lines" "enumerate1 lines"]
    by (simp add: init_state_def)
  have b: "scenario_dict (scan ck lines r) = map_of (scenario_titles (enumerate1 lines))"
    unfolding scan_after_loop pre full ..
  have c: "\<And>j k. j \<le> k \<Longrightarrow>
      scenario_dict (scan_prefix ck lines r j) \<subseteq>\<^sub>m scenario_dict (scan_prefix ck lines r k)"
  proof -
    fix j k :: nat
    assume "j \<le> k"
    then have "take k (enumerate1 lines) =
               take j (enumerate1 lines) @ take (k - j) (drop j (enumerate1 lines))"
      by (metis le_add_diff_inverse take_add)
    then show "scenario_dict (scan_prefix ck lines r j) \<subseteq>\<^sub>m scenario_dict (scan_prefix ck lines r k)"
      unfolding pre by (simp add: scenario_titles_append map_of_prefix_le)
  qed
  from a b pre c show ?thesis by blast
qed

theorem duplicate_scenarios_by_first_occurrence_witness:
  "issues_of ''Duplicate Scenario'' (report (scan (plain_checker ''standard'') twice_doc empty_report)) =
     [(''Duplicate Scenario'', ''Scenario identical to one at line 2'', 5),
      (''Duplicate Scenario'', ''Scenario identical to one at line 2'', 6)] \<and>
   scenario_dict (scan (plain_checker ''standard'') twice_doc empty_report) ''Scenario: start'' = Some 2 \<and>
   scenario_dict (scan (plain_checker ''standard'') twice_doc empty_report) ''Scenario: stop'' = Some 4 \<and>
   scenario_dict (scan_prefix (plain_checker ''standard'') twice_doc empty_report 2) \<subseteq>\<^sub>m
   scenario_dict (scan_prefix (plain_checker ''standard'') twice_doc empty_report 5)"
proof -
  have d: "issues_of ''Duplicate Scenario'' empty_report @
        duplicate_issues (scenario_titles (enumerate1 twice_doc)) =
        [(''Duplicate Scenario'', ''Scenario identical to one at line 2'', 5),
         (''Duplicate Scenario'', ''Scenario identical to one at line 2'', 6)]"
    by code_simp
  have m: "map_of (scenario_titles (enumerate1 twice_doc)) ''Scenario: start'' = Some 2"
    "map_of (scenario_titles (enumerate1 twice_doc)) ''Scenario: stop'' = Some 4"
    by code_simp+
  have le: "(2::nat) \<le> 5" by simp
  from duplicate_scenarios_by_first_occurrence
    [of "plain_checker ''standard''" twice_doc empty_report] d m le
  show ?thesis by metis
qed

section \<open>The Drive Cycle check at a scenario boundary\<close>

text \<open>
  C1 says that in a \<open>drive_cycle\<close> document every scenario with a When step yields one
  Syntax Error "When not allowed in Drive Cycle format" at its start line, the check being
  made when the next Scenario line starts, on the counts of the scenario that ends. The
  scan makes the check after the Scenario branch has reset the counts and the start line:
  the first scenario of \<open>two_scenarios\<close> has a When step and the scan of the document
  reports nothing at all. The Success Criteria check, made before the reset, does report
  on the first scenario of the same document.
\<close>

theorem drive_cycle_when_lost_at_next_scenario:
  "issues (report (scan (plain_checker ''drive_cycle'') two_scenarios empty_report)) = [] \<and>
   issues (report (scan (plain_checker ''success_criteria'') two_scenarios empty_report)) =
     [(''Syntax Error'', ''Success Criteria must have exactly 1 Given, found 0'', 2),
      (''Syntax Error'', ''Success Criteria must have exactly 1 When, found 0'', 4)]"
  by code_simp

section \<open>The line of a placeholder issue\<close>

text \<open>
  C2 says that a Placeholder Mismatch is reported at the line of the first step that holds
  the placeholder. The scan reports it at the index of that step among the buffered steps
  plus the start line of the scenario: in \<open>outline_doc\<close> the step with \<open><"rate">\<close> is
  line 3, the scenario starts at line 2, and the issue is reported at line 2.
\<close>

theorem placeholder_mismatch_line_off_by_one:
  "issues (report (scan (plain_checker ''standard'') outline_doc empty_report)) =
     [(''Placeholder Mismatch'', mismatch_description ''<\"rate\">'', 2)] \<and>
   py_in ''<\"rate\">'' (outline_doc ! (3 - 1)) \<and> \<not> py_in ''<\"rate\">'' (outline_doc ! (2 - 1))"
  by code_simp

section \<open>Custom words and the cache\<close>

text \<open>
  C3 says that no Misspelling is reported for a word of the custom-word set, whatever the
  cache holds. The scan looks the word up in the cache first: with "speling" both in the
  custom words and in the cache with a suggestion, the line \<open>Feature: speling\<close> yields a
  Misspelling.
\<close>

theorem custom_word_reported_from_cache:
  "''speling'' \<in> ck_custom_words cached_checker \<and>
   misspelled_words (report (scan cached_checker (file_lines [''Feature: speling'']) empty_report)) =
     [(''speling'', 1, [''spelling''])]"
  by code_simp

section \<open>Single quotes without a partner\<close>

text \<open>
  C5 says that a single-quoted span that lacks its closing quote yields an Invalid
  Placeholder Syntax issue "missing a closing quote". The pattern only matches spans
  with both quotes: the step \<open>Given 'name is used\<close> yields no issue.
\<close>

theorem unclosed_quote_not_reported:
  "issues (report (scan (plain_checker ''standard'') unclosed_doc empty_report)) = []"
  by code_simp

section \<open>Configuration errors\<close>

text \<open>
  C9 says that an invalid feature-type tag is rejected with an error. No tag is rejected:
  a checker is made with the tag \<open>bogus\<close>, and \<open>process_file\<close> under it returns \<open>True\<close>
  with a report that carries the tag.
\<close>

theorem invalid_feature_type_accepted:
  "ck_feature_type (GherkinChecker_init None None Map.empty {} ''bogus'' True) = ''bogus'' \<and>
   (case process_file (plain_checker ''bogus'') example_fs ''engine.feature'' empty_report of
      (ok, r, ck) \<Rightarrow> ok \<and> feature_type r = ''bogus'' \<and> issues r = [])"
  by code_simp

lemma other_type_tests:
  assumes "ftype \<noteq> ''drive_cycle''" and "ftype \<noteq> ''success_criteria''"
  shows "(ck_feature_type (ck\<lparr>ck_feature_type := ftype\<rparr>) = ''drive_cycle'') =
         (ck_feature_type (ck\<lparr>ck_feature_type := ''standard''\<rparr>) = ''drive_cycle'')"
    and "(ck_feature_type (ck\<lparr>ck_feature_type := ftype\<rparr>) = ''success_criteria'') =
         (ck_feature_type (ck\<lparr>ck_feature_type := ''standard''\<rparr>) = ''success_criteria'')"
  using assms by simp_all

lemma other_type_on_scenario:
  assumes "ftype \<noteq> ''drive_cycle''" and "ftype \<noteq> ''success_criteria''"
  shows "on_scenario (ck\<lparr>ck_feature_type := ftype\<rparr>) i line st =
         on_scenario (ck\<lparr>ck_feature_type := ''standard''\<rparr>) i line st"
  unfolding on_scenario_def other_type_tests [OF assms] ..

lemma other_type_on_step:
  assumes "ftype \<noteq> ''drive_cycle''" and "ftype \<noteq> ''success_criteria''"
  shows "on_step (ck\<lparr>ck_feature_type := ftype\<rparr>) i line st =
         on_step (ck\<lparr>ck_feature_type := ''standard''\<rparr>) i line st"
  unfolding on_step_def other_type_tests [OF assms] ..

lemma other_type_drive_cycle_check:
  assumes "ftype \<noteq> ''drive_cycle''" and "ftype \<noteq> ''success_criteria''"
  shows "drive_cycle_check (ck\<lparr>ck_feature_type := ftype\<rparr>) n i line st =
         drive_cycle_check (ck\<lparr>ck_feature_type := ''standard''\<rparr>) n i line st"
  unfolding drive_cycle_check_def other_type_tests [OF assms] ..

lemma other_type_spellcheck:
  "spellcheck (ck\<lparr>ck_feature_type := ftype\<rparr>) i line st = spellcheck ck i line st"
proof -
  have "\<And>sp. spell_word (ck\<lparr>ck_feature_type := ftype\<rparr>) sp i = spell_word ck sp i"
    by (intro ext) (simp add: spell_word_def)
  then show ?thesis
    unfolding spellcheck_def by (simp split: option.splits)
qed

lemma other_type_classify_line:
  assumes "ftype \<noteq> ''drive_cycle''" and "ftype \<noteq> ''success_criteria''"
  shows "classify_line (ck\<lparr>ck_feature_type := ftype\<rparr>) i line st =
         classify_line (ck\<lparr>ck_feature_type := ''standard''\<rparr>) i line st"
  unfolding classify_line_def other_type_on_scenario [OF assms] other_type_on_step [OF assms] ..

lemma other_type_loop_body:
  assumes "ftype \<noteq> ''drive_cycle''" and "ftype \<noteq> ''success_criteria''"
  shows "loop_body (ck\<lparr>ck_feature_type := ftype\<rparr>) n =
         loop_body (ck\<lparr>ck_feature_type := ''standard''\<rparr>) n"
proof (intro ext)
  fix st il
  show "loop_body (ck\<lparr>ck_feature_type := ftype\<rparr>) n st il =
        loop_body (ck\<lparr>ck_feature_type := ''standard''\<rparr>) n st il"
    unfolding loop_body_def other_type_spellcheck other_type_classify_line [OF assms]
      other_type_drive_cycle_check [OF assms] ..
qed

lemma other_type_scan:
  assumes "ftype \<noteq> ''drive_cycle''" and "ftype \<noteq> ''success_criteria''"
  shows "scan (ck\<lparr>ck_feature_type := ftype\<rparr>) lines r =
         scan (ck\<lparr>ck_feature_type := ''standard''\<rparr>) lines r"
proof -
  have i: "init_state (ck\<lparr>ck_feature_type := ftype\<rparr>) r =
           init_state (ck\<lparr>ck_feature_type := ''standard''\<rparr>) r"
    by (simp add: init_state_def)
  show ?thesis
    unfolding scan_def scan_prefix_def other_type_loop_body [OF assms] i
      other_type_tests [OF assms] ..
qed

text \<open>
  C9, as the code has it. \<open>generate_report\<close> with a format other than \<open>text\<close> and \<open>json\<close>
  raises a \<open>ValueError\<close> that names the format, and leaves the report as it was. A
  feature-type tag is not checked anywhere: a checker is made with any tag, and a scan
  under a tag other than \<open>drive_cycle\<close> and \<open>success_criteria\<close> is the scan under
  \<open>standard\<close>.
\<close>

theorem configuration_errors:
  "(format \<noteq> ''text'' \<and> format \<noteq> ''json'' \<longrightarrow>
      generate_report r format =
        (Inl (ValueError (''Unsupported report format: '' @ format)), r)) \<and>
   ck_feature_type (GherkinChecker_init enchant_dict sp cache custom_words ftype enabled) = ftype \<and>
   (ftype \<noteq> ''drive_cycle'' \<and> ftype \<noteq> ''success_criteria'' \<longrightarrow>
      scan (ck\<lparr>ck_feature_type := ftype\<rparr>) lines r0 =
      scan (ck\<lparr>ck_feature_type := ''standard''\<rparr>) lines r0)"
proof (intro conjI impI)
  assume "format \<noteq> ''text'' \<and> format \<noteq> ''json''"
  then show "generate_report r format =
        (Inl (ValueError (''Unsupported report format: '' @ format)), r)"
    by (simp add: generate_report_def)
next
  show "ck_feature_type (GherkinChecker_init enchant_dict sp cache custom_words ftype enabled) = ftype"
    by (simp add: GherkinChecker_init_def)
next
  assume "ftype \<noteq> ''drive_cycle'' \<and> ftype \<noteq> ''success_criteria''"
  then show "scan (ck\<lparr>ck_feature_type := ftype\<rparr>) lines r0 =
      scan (ck\<lparr>ck_feature_type := ''standard''\<rparr>) lines r0"
    by (intro other_type_scan) simp_all
qed

theorem configuration_errors_witness:
  "generate_report empty_report ''xml'' =
     (Inl (ValueError ''Unsupported report format: xml''), empty_report) \<and>
   scan (plain_checker ''bogus'') two_scenarios empty_report =
   scan (plain_checker ''standard'') two_scenarios empty_report"
proof -
  have f: "''xml'' \<noteq> ''text'' \<and> ''xml'' \<noteq> ''json''" by simp
  have t: "''bogus'' \<noteq> ''drive_cycle'' \<and> ''bogus'' \<noteq> ''success_criteria''" by simp
  have c: "plain_checker ''bogus'' = (plain_checker ''bogus'')\<lparr>ck_feature_type := ''bogus''\<rparr>"
    "plain_checker ''standard'' = (plain_checker ''bogus'')\<lparr>ck_feature_type := ''standard''\<rparr>"
    by (simp_all add: plain_checker_def GherkinChecker_init_def)
  have x: "''Unsupported report format: '' @ ''xml'' = ''Unsupported report format: xml''" by simp
  from configuration_errors [of "''xml''" empty_report None None Map.empty "{}" "''bogus''" True
      "plain_checker ''bogus''" two_scenarios empty_report] f t
  have "generate_report empty_report ''xml'' =
          (Inl (ValueError (''Unsupported report format: '' @ ''xml'')), empty_report)"
    and "scan ((plain_checker ''bogus'')\<lparr>ck_feature_type := ''bogus''\<rparr>) two_scenarios empty_report =
         scan ((plain_checker ''bogus'')\<lparr>ck_feature_type := ''standard''\<rparr>) two_scenarios empty_report"
    by blast+
  then show ?thesis
    by (simp only: x c [symmetric])
qed

section \<open>The order of placeholders\<close>

lemma issues_order_loop:
  "issues (order_loop ho line_of phs last_pos r) =
   issues r @
   map (\<lambda>ph. (''Placeholder Order'', order_description ph, line_of ph))
     (out_of_order ho last_pos phs)"
proof (induction phs arbitrary: last_pos r)
  case Nil
  show ?case by simp
next
  case (Cons ph phs)
  show ?case
  proof (cases "ho (placeholder_name ph)")
    case None
    with Cons.IH show ?thesis by simp
  next
    case (Some cp)
    show ?thesis
    proof (cases "int cp < last_pos")
      case True
      then have "max last_pos (int cp) = last_pos" by simp
      with Some True Cons.IH show ?thesis by (simp add: add_issue_def)
    next
      case False
      with Some Cons.IH show ?thesis by simp
    qed
  qed
qed

lemma not_order_accepts:
  "accepts_syntax (\<lambda>x. fst x \<noteq> ''Placeholder Order'')"
  "accepts (\<lambda>x. fst x \<noteq> ''Placeholder Order'') ''Placeholder Mismatch''"
  "accepts (\<lambda>x. fst x \<noteq> ''Placeholder Order'') ''Invalid Placeholder Syntax''"
  "accepts (\<lambda>x. fst x \<noteq> ''Placeholder Order'') ''Repeated Word''"
  unfolding accepts_syntax_def accepts_def by simp_all

lemma capture_headers_order:
  "issues_of ''Placeholder Order'' (report (capture_headers i line st)) =
   issues_of ''Placeholder Order'' (report st) @
   map (order_issue st i)
     (out_of_order (header_order (map py_strip (butlast (tl (py_split (CHR ''|'') line)))))
        (- 1) (step_placeholders st))"
proof -
  define hdrs where "hdrs = map py_strip (butlast (tl (py_split (CHR ''|'') line)))"
  define r1 where "r1 = mismatch_loop hdrs (placeholder_line st i) (step_placeholders st) (report st)"
  have q: "\<And>x::issue. fst x \<noteq> ''Placeholder Order'' \<Longrightarrow> \<not> fst x = ''Placeholder Order''"
    by simp
  have "radds (\<lambda>x. fst x \<noteq> ''Placeholder Order'') (report st) r1"
    unfolding r1_def by (rule radds_mismatch_loop [OF not_order_accepts(2)])
  then obtain new where n: "issues r1 = issues (report st) @ new"
    "list_all (\<lambda>x. fst x \<noteq> ''Placeholder Order'') new"
    unfolding radds_def by blast
  from n(2) have "filter (\<lambda>x. fst x = ''Placeholder Order'') new = []"
    by (induction new) auto
  with n(1) have k: "issues_of ''Placeholder Order'' r1 = issues_of ''Placeholder Order'' (report st)"
    unfolding issues_of_def by simp
  have o: "issues_of ''Placeholder Order''
             (order_loop (header_order hdrs) (placeholder_line st i) (step_placeholders st) (- 1) r1) =
           issues_of ''Placeholder Order'' r1 @
           map (order_issue st i) (out_of_order (header_order hdrs) (- 1) (step_placeholders st))"
    unfolding issues_of_def issues_order_loop
    by (simp add: order_issue_def filter_map o_def)
  have "report (capture_headers i line st) =
        (if step_placeholders st \<noteq> []
         then order_loop (header_order hdrs) (placeholder_line st i) (step_placeholders st) (- 1) r1
         else r1)"
    unfolding capture_headers_def r1_def hdrs_def step_placeholders_def Let_def by simp
  then show ?thesis
    using o k unfolding hdrs_def by (cases "step_placeholders st = []") simp_all
qed

lemma loop_body_table_row:
  assumes "in_examples st" and "py_startswith (py_strip raw) ''|''"
  shows "loop_body ck n st (i, raw) =
         spellcheck ck i (py_strip raw)
           (bad_placeholder_check i (py_strip raw)
             (drive_cycle_check ck n i (py_strip raw) (on_table_row i (py_strip raw) st)))"
proof -
  let ?line = "py_strip raw"
  let ?t = "on_table_row i ?line st"
  let ?s = "spellcheck ck i ?line (bad_placeholder_check i ?line (drive_cycle_check ck n i ?line ?t))"
  have c: "classify_line ck i ?line st = ?t"
    unfolding classify_line_def using assms table_row_processed [OF assms(2)] by simp
  have "report_only ?t ?s"
    by (rule report_only_trans [OF report_only_drive_cycle_check
          report_only_trans [OF report_only_bad_placeholder_check report_only_spellcheck]])
  from report_only_fields(3) [OF this] have "in_examples ?s"
    using assms(1) by (simp add: on_table_row_fields)
  then have "repeated_word_check i ?line ?s = ?s"
    using assms(2) by (rule issues_repeated_word_check_row)
  then show ?thesis
    unfolding loop_body_def Let_def using table_row_processed [OF assms(2)] c by simp
qed

lemma header_order_snoc: "header_order (hdrs @ [h]) = (header_order hdrs)(h \<mapsto> length hdrs)"
  unfolding header_order_def by simp

lemma header_order_None: "header_order hdrs name = None \<longleftrightarrow> name \<notin> set hdrs"
  by (induction hdrs rule: rev_induct) (auto simp: header_order_snoc header_order_def)

lemma header_order_index:
  "distinct hdrs \<Longrightarrow> k < length hdrs \<Longrightarrow> header_order hdrs (hdrs ! k) = Some k"
proof (induction hdrs rule: rev_induct)
  case Nil
  then show ?case by simp
next
  case (snoc h hdrs)
  show ?case
  proof (cases "k < length hdrs")
    case True
    with snoc.prems have "hdrs ! k \<noteq> h" by auto
    with True snoc show ?thesis by (simp add: header_order_snoc nth_append)
  next
    case False
    with snoc.prems have "k = length hdrs" by simp
    then show ?thesis by (simp add: header_order_snoc)
  qed
qed


text \<open>
  C7. When the first table row of an Examples block is scanned, the Placeholder Order issues
  added are those of a walk over the placeholder tokens of the buffered steps, in the order
  of their occurrence and with repetitions: with a last position that starts at -1, a token
  whose name is no header is passed over, a token whose column index is below the last
  position is reported, and any other token moves the last position up to its index. The
  index of a name is its column in the header row (for distinct headers), and a name has
  none exactly when it is no header.
\<close>

theorem placeholder_order_walk:
  "(in_examples st \<and> no_headers st \<and> py_startswith (py_strip raw) ''|'' \<longrightarrow>
      issues_of ''Placeholder Order'' (report (loop_body ck n st (i, raw))) =
        issues_of ''Placeholder Order'' (report st) @
        map (order_issue st i)
          (out_of_order (header_order (row_headers raw)) (- 1) (step_placeholders st)) \<and>
      examples_headers (loop_body ck n st (i, raw)) = Some (row_headers raw)) \<and>
   (header_order hdrs name = None \<longleftrightarrow> name \<notin> set hdrs) \<and>
   (distinct hdrs \<and> k < length hdrs \<longrightarrow> header_order hdrs (hdrs ! k) = Some k)"
proof (intro conjI impI)
  assume a: "in_examples st \<and> no_headers st \<and> py_startswith (py_strip raw) ''|''"
  let ?line = "py_strip raw"
  let ?c = "capture_headers i ?line st"
  have t: "on_table_row i ?line st = ?c"
    using a by (simp add: on_table_row_def)
  have lb: "loop_body ck n st (i, raw) =
         spellcheck ck i ?line (bad_placeholder_check i ?line (drive_cycle_check ck n i ?line ?c))"
    using a loop_body_table_row [of st raw ck n i] t by simp
  have q: "\<And>x::issue. fst x \<noteq> ''Placeholder Order'' \<Longrightarrow> \<not> fst x = ''Placeholder Order''"
    by simp
  have "adds (\<lambda>x. fst x \<noteq> ''Placeholder Order'') ?c (loop_body ck n st (i, raw))"
    unfolding lb
    by (rule adds_trans [OF adds_drive_cycle_check [OF not_order_accepts(1)]
          adds_trans [OF adds_bad_placeholder_check [OF not_order_accepts(3)] adds_spellcheck]])
  from adds_filter [OF this q]
  have "issues_of ''Placeholder Order'' (report (loop_body ck n st (i, raw))) =
        issues_of ''Placeholder Order'' (report ?c)"
    unfolding issues_of_def .
  then show "issues_of ''Placeholder Order'' (report (loop_body ck n st (i, raw))) =
        issues_of ''Placeholder Order'' (report st) @
        map (order_issue st i)
          (out_of_order (header_order (row_headers raw)) (- 1) (step_placeholders st))"
    by (simp add: capture_headers_order row_headers_def)
  have "report_only ?c (loop_body ck n st (i, raw))"
    unfolding lb
    by (rule report_only_trans [OF report_only_drive_cycle_check
          report_only_trans [OF report_only_bad_placeholder_check report_only_spellcheck]])
  from report_only_fields(6) [OF this]
  show "examples_headers (loop_body ck n st (i, raw)) = Some (row_headers raw)"
    by (simp add: capture_headers_def row_headers_def Let_def)
next
  show "header_order hdrs name = None \<longleftrightarrow> name \<notin> set hdrs"
    by (rule header_order_None)
next
  assume "distinct hdrs \<and> k < length hdrs"
  then show "header_order hdrs (hdrs ! k) = Some k"
    by (simp add: header_order_index)
qed

theorem placeholder_order_walk_witness:
  "issues_of ''Placeholder Order''
     (report (loop_body (plain_checker ''standard'') 6
        (scan_prefix (plain_checker ''standard'') order_doc empty_report 5) (6, order_doc ! 5))) =
     [(''Placeholder Order'', order_description ''<\"A\">'', 3)] \<and>
   issues_of ''Placeholder Order''
     (report (loop_body (plain_checker ''standard'') 7
        (scan_prefix (plain_checker ''standard'') inorder_doc empty_report 6) (7, inorder_doc ! 6))) =
     [] \<and>
   header_order [''A'', ''B'', ''C''] ([''A'', ''B'', ''C''] ! 1) = Some 1"
proof -
  let ?ck = "plain_checker ''standard''"
  let ?s1 = "scan_prefix ?ck order_doc empty_report 5"
  let ?s2 = "scan_prefix ?ck inorder_doc empty_report 6"
  have h1: "in_examples ?s1 \<and> no_headers ?s1 \<and> py_startswith (py_strip (order_doc ! 5)) ''|''"
    by code_simp
  have h2: "in_examples ?s2 \<and> no_headers ?s2 \<and> py_startswith (py_strip (inorder_doc ! 6)) ''|''"
    by code_simp
  have e1: "issues_of ''Placeholder Order'' (report ?s1) @
        map (order_issue ?s1 6)
          (out_of_order (header_order (row_headers (order_doc ! 5))) (- 1) (step_placeholders ?s1)) =
        [(''Placeholder Order'', order_description ''<\"A\">'', 3)]"
    by code_simp
  have e2: "issues_of ''Placeholder Order'' (report ?s2) @
        map (order_issue ?s2 7)
          (out_of_order (header_order (row_headers (inorder_doc ! 6))) (- 1) (step_placeholders ?s2)) =
        []"
    by code_simp
  have h3: "distinct [''A'', ''B'', ''C''] \<and> (1::nat) < length [''A'', ''B'', ''C'']"
    by simp
  from placeholder_order_walk [of ?s1 "order_doc ! 5" ?ck 6 6 "[''A'', ''B'', ''C'']" "''A''" 1] h1 h3
  have a: "issues_of ''Placeholder Order'' (report (loop_body ?ck 6 ?s1 (6, order_doc ! 5))) =
        issues_of ''Placeholder Order'' (report ?s1) @
        map (order_issue ?s1 6)
          (out_of_order (header_order (row_headers (order_doc ! 5))) (- 1) (step_placeholders ?s1))"
    and c: "header_order [''A'', ''B'', ''C''] ([''A'', ''B'', ''C''] ! 1) = Some 1"
    by blast+
  from placeholder_order_walk [of ?s2 "inorder_doc ! 6" ?ck 7 7 "[]" "''A''" 0] h2
  have b: "issues_of ''Placeholder Order'' (report (loop_body ?ck 7 ?s2 (7, inorder_doc ! 6))) =
        issues_of ''Placeholder Order'' (report ?s2) @
        map (order_issue ?s2 7)
          (out_of_order (header_order (row_headers (inorder_doc ! 6))) (- 1) (step_placeholders ?s2))"
    by blast
  from a b c show ?thesis
    unfolding e1 e2 by blast
qed

section \<open>The lexical checks\<close>






































section \<open>Checks that can report nothing\<close>

text \<open>
  Behind the example of C1: the Scenario branch leaves the When and Then counts at zero, so
  the Drive Cycle check that follows it on the same line changes nothing, whatever the
  scenario that ends held.
\<close>

lemma on_scenario_counts:
  "when_count (on_scenario ck i line st) = 0" "then_count (on_scenario ck i line st) = 0"
  unfolding on_scenario_def Let_def by simp_all

lemma drive_cycle_check_after_scenario:
  "drive_cycle_check ck n i line (on_scenario ck i line st) = on_scenario ck i line st"
  unfolding drive_cycle_check_def Let_def by (simp add: on_scenario_counts)

text \<open>
  Behind the example of C5: every span that \<open>bad_placeholder_pattern\<close> finds starts and
  ends with a single quote, so the loop over the spans always takes its first branch.
\<close>

lemma re_scan_match:
  "Inl m \<in> set (re_scan p k s) \<Longrightarrow> \<exists>t n. p t = Some (Suc n) \<and> m = take (Suc n) t"
proof (induction p k s rule: re_scan.induct)
  case (1 p k)
  then show ?case by simp
next
  case (2 p k c cs)
  then show ?case by simp
next
  case (3 p c cs)
  show ?case
  proof (cases "p (c # cs)")
    case None
    with 3 show ?thesis by auto
  next
    case (Some l)
    show ?thesis
    proof (cases l)
      case 0
      with Some 3 show ?thesis by auto
    next
      case (Suc n)
      from Some Suc "3.prems" have "m = take (Suc n) (c # cs) \<or> Inl m \<in> set (re_scan p n cs)"
        by auto
      then show ?thesis
      proof
        assume "m = take (Suc n) (c # cs)"
        with Some Suc show ?thesis by blast
      next
        assume "Inl m \<in> set (re_scan p n cs)"
        with 3 Some Suc show ?thesis by blast
      qed
    qed
  qed
qed

lemma quoted_match_span:
  assumes "quoted_match q t = Some (Suc n)"
  shows "take (Suc n) t = q # takeWhile (\<lambda>x. x \<noteq> q) (tl t) @ [q]"
proof -
  from assms obtain cs where t: "t = q # cs"
    and d: "dropWhile (\<lambda>x. x \<noteq> q) cs \<noteq> []"
    and n: "Suc n = length (takeWhile (\<lambda>x. x \<noteq> q) cs) + 2"
    unfolding quoted_match_def by (auto split: list.splits if_splits)
  let ?tw = "takeWhile (\<lambda>x. x \<noteq> q) cs" and ?dw = "dropWhile (\<lambda>x. x \<noteq> q) cs"
  from d obtain e es where dw: "?dw = e # es" by (cases ?dw) auto
  from hd_dropWhile [OF d] dw have e: "e = q" by simp
  have "cs = ?tw @ ?dw" by simp
  then have cs: "cs = ?tw @ q # es" using dw e by simp
  have "take (Suc (length ?tw)) (?tw @ q # es) = ?tw @ [q]" by simp
  with cs have "take (Suc (length ?tw)) cs = ?tw @ [q]" by simp
  with t n show ?thesis by simp
qed

lemma bad_placeholder_both_quotes:
  assumes "bp \<in> set (re_findall bad_placeholder_pattern line)"
  shows "py_startswith bp [sq] \<and> py_endswith bp [sq]"
proof -
  from assms have "Inl bp \<in> set (re_scan bad_placeholder_pattern 0 line)"
    unfolding re_findall_def by (auto split: sum.splits)
  from re_scan_match [OF this] obtain t n where
    "bad_placeholder_pattern t = Some (Suc n)" "bp = take (Suc n) t"
    by blast
  with quoted_match_span [of sq t n] have "bp = sq # takeWhile (\<lambda>x. x \<noteq> sq) (tl t) @ [sq]"
    unfolding bad_placeholder_pattern_def by simp
  then show ?thesis
    by (simp add: py_startswith_def py_endswith_def)
qed

lemma bad_placeholder_step_only_first_branch:
  assumes "bp \<in> set (re_findall bad_placeholder_pattern line)"
  shows "bad_placeholder_step i r bp =
         add_issue r ''Invalid Placeholder Syntax''
          (''Placeholder '' @ [sq] @ bp @ [sq] @
           '' should use angle brackets with double quotes (e.g., <'' @ [dq] @
           py_strip_chars [sq] bp @ [dq] @ ''>) instead of single quotes'') i"
  using bad_placeholder_both_quotes [OF assms]
  unfolding bad_placeholder_step_def Let_def by simp

end
